theory Spec2Isabelle
  imports Main
begin

section \<open>The keyboard navigation mixin\<close>

text \<open>
  A shallow embedding of the keyboard navigation mixin (the factory
  \<^verbatim>\<open>export default ({listItemRole = 'option', ...} = {}) => ({...})\<close>): the data it
  adds to the host component, the methods it defines and the calls these make into the
  host and the browser.

  \<^item> The options of the factory are the record \<open>config\<close>. The options \<^verbatim>\<open>indexKey\<close>,
    \<^verbatim>\<open>idKey\<close>, \<^verbatim>\<open>listElementKey\<close> and \<^verbatim>\<open>activeItemKey\<close> only name properties of the
    host; the model has the named properties themselves (the fields \<open>highlightIndex\<close>
    and \<open>highlightId\<close> of the component, \<open>listRef\<close> and \<open>activeItem\<close> of the host),
    under the assumption that the names are distinct.
  \<^item> A method is a function from the component to a result and the component after
    the call. Everything a method does that can be observed from outside is appended
    to the field \<open>trace\<close>: writes to the two data fields, calls of host methods,
    \<^verbatim>\<open>console.error\<close>, \<^verbatim>\<open>$nextTick\<close>, scrolling and focusing.
  \<^item> The options \<^verbatim>\<open>openMethod\<close>, \<^verbatim>\<open>beginningOfListMethod\<close> and \<^verbatim>\<open>endOfListMethod\<close> name
    methods of the component, which \<^verbatim>\<open>this[name](...)\<close> looks up by name: methods of the
    host, or the mixin's own, such as \<^verbatim>\<open>jumpToBeginning\<close>. The host carries the table of
    these methods, each a function on the component; the model records the call and
    then runs the method. A property that needs the method to leave the component
    alone says so in a hypothesis. A configured method is taken to exist and to return.
  \<^item> The stored index is a JavaScript number. The model keeps the integers among them
    and rounds what \<^verbatim>\<open>+ 1\<close> and \<^verbatim>\<open>- 1\<close> give to the nearest double.
  \<^item> An \<^verbatim>\<open>async\<close> method is its part up to the \<^verbatim>\<open>await\<close>, which runs when the method
    is called, and its continuation, which runs at the next tick; the component keeps
    the continuations that wait.
  \<^item> \<^verbatim>\<open>undefined\<close> is \<open>None\<close>: the index field holds \<open>int option\<close>, the id field
    \<open>string option\<close>. The arguments of \<^verbatim>\<open>setHighlightIndex\<close> and \<^verbatim>\<open>setHighlightId\<close> are
    an integer and a string.
\<close>

subsection \<open>JavaScript numbers\<close>

text \<open>The number of binary digits of a natural number.\<close>

fun bit_length :: "nat \<Rightarrow> nat" where
  "bit_length n = (if n = 0 then 0 else Suc (bit_length (n div 2)))"

text \<open>
  The double nearest to an integer, for integers in the range of the doubles: an
  integer of at most 53 binary digits is a double; a longer one is rounded to 53
  significant digits, a tie going to the even neighbour.
\<close>

definition js_number :: "int \<Rightarrow> int" where
  "js_number x =
     (if \<bar>x\<bar> \<le> 2 ^ 53 then x
      else (let u = 2 ^ (bit_length (nat \<bar>x\<bar>) - 53);
                q = \<bar>x\<bar> div u;
                r = \<bar>x\<bar> mod u;
                q' = (if u < 2 * r \<or> (2 * r = u \<and> odd q) then q + 1 else q)
            in sgn x * (q' * u)))"

text \<open>\<^verbatim>\<open>a + b\<close> and \<^verbatim>\<open>a - b\<close> on numbers that are integers.\<close>

definition js_plus :: "int \<Rightarrow> int \<Rightarrow> int" where
  "js_plus a b = js_number (a + b)"

definition js_minus :: "int \<Rightarrow> int \<Rightarrow> int" where
  "js_minus a b = js_number (a - b)"

subsection \<open>The list element and its descendants\<close>

text \<open>
  An element as far as the mixin reads it: its \<^verbatim>\<open>role\<close> attribute (\<open>None\<close> when the
  attribute is absent) and its \<^verbatim>\<open>id\<close> property (the empty string when the element
  has no id attribute).
\<close>

record element =
  elem_role :: "string option"
  elem_id :: string

text \<open>
  The list element is given by its descendants in document order, which is the order
  of \<^verbatim>\<open>querySelectorAll\<close> and \<^verbatim>\<open>querySelector\<close>. A node is identified by its position in
  that order, so two elements with equal attributes are still two nodes.
\<close>

type_synonym dom = "element list"

type_synonym node = nat

text \<open>\<^verbatim>\<open>listElement.querySelectorAll(`[role="${listItemRole}"]`)\<close>: the nodes whose role
  attribute is the given role, in document order. (The role is taken to be free of
  double quotes, backslashes and line breaks, which would end the quoted string of the
  selector.)\<close>

definition querySelectorAll_role :: "string \<Rightarrow> dom \<Rightarrow> node list" where
  "querySelectorAll_role r d = filter (\<lambda>n. elem_role (d ! n) = Some r) [0..<length d]"

subsection \<open>The selector \<^verbatim>\<open>#id\<close>\<close>

text \<open>
  \<^verbatim>\<open>listElement.querySelector(`#${id}`)\<close> hands the string \<^verbatim>\<open>#\<close> followed by the id to
  the browser's selector parser. For an id made of ASCII letters, digits, \<^verbatim>\<open>-\<close> and
  \<^verbatim>\<open>_\<close> only, CSS Syntax reads \<^verbatim>\<open>#\<close> and the id as one hash token, which is an ID
  selector exactly when the id starts an identifier: a letter or \<^verbatim>\<open>_\<close> first, or
  \<^verbatim>\<open>-\<close> followed by a letter or \<^verbatim>\<open>_\<close>. An empty id, a leading digit, a lone
  \<^verbatim>\<open>-\<close> and \<^verbatim>\<open>-\<close> followed by a digit are no selector, and \<^verbatim>\<open>querySelector\<close> throws
  a \<^verbatim>\<open>SyntaxError\<close>. Every other id (one with a dot, a space, a colon, a non-ASCII
  byte, or starting with two hyphens) is left to the browser: the selector engine for
  those is a parameter of the model. An ID selector matches the elements whose id is
  the given one, character by character (the document is not in quirks mode).
\<close>

datatype js_error = SyntaxError

datatype hash_selector = Id_selector | Invalid_selector | Other_selector

definition is_letter :: "char \<Rightarrow> bool" where
  "is_letter c = (let k = (of_char c :: nat) in (65 \<le> k \<and> k \<le> 90) \<or> (97 \<le> k \<and> k \<le> 122))"

definition is_digit :: "char \<Rightarrow> bool" where
  "is_digit c = (let k = (of_char c :: nat) in 48 \<le> k \<and> k \<le> 57)"

definition is_ident_start :: "char \<Rightarrow> bool" where
  "is_ident_start c = (is_letter c \<or> c = CHR ''_'')"

definition is_name_char :: "char \<Rightarrow> bool" where
  "is_name_char c = (is_ident_start c \<or> is_digit c \<or> c = CHR ''-'')"

fun classify_hash :: "string \<Rightarrow> hash_selector" where
  "classify_hash [] = Invalid_selector"
| "classify_hash (c # cs) =
     (if \<not> list_all is_name_char (c # cs) then Other_selector
      else if is_ident_start c then Id_selector
      else if is_digit c then Invalid_selector
      else (case cs of
              [] \<Rightarrow> Invalid_selector
            | c' # _ \<Rightarrow>
                if is_ident_start c' then Id_selector
                else if is_digit c' then Invalid_selector
                else Other_selector))"

type_synonym selector_engine = "string \<Rightarrow> dom \<Rightarrow> js_error + node option"

text \<open>The first descendant with the given id, in document order; \<open>None\<close> is \<^verbatim>\<open>null\<close>.\<close>

definition first_with_id :: "string \<Rightarrow> dom \<Rightarrow> node option" where
  "first_with_id i d = find (\<lambda>n. elem_id (d ! n) = i) [0..<length d]"

text \<open>\<^verbatim>\<open>listElement.querySelector(`#${id}`)\<close>: the first descendant with that id, or the
  exception.\<close>

definition querySelector_hash :: "selector_engine \<Rightarrow> string \<Rightarrow> dom \<Rightarrow> js_error + node option" where
  "querySelector_hash eng i d =
     (case classify_hash i of
        Id_selector \<Rightarrow> Inr (first_with_id i d)
      | Invalid_selector \<Rightarrow> Inl SyntaxError
      | Other_selector \<Rightarrow> eng i d)"

text \<open>\<^verbatim>\<open>listItems.indexOf(x)\<close>: the first position of the node in the array, \<open>-1\<close> when
  it is not there; \<^verbatim>\<open>null\<close> is never in an array of nodes.\<close>

fun indexOf_from :: "int \<Rightarrow> node list \<Rightarrow> node \<Rightarrow> int" where
  "indexOf_from k [] x = -1"
| "indexOf_from k (y # ys) x = (if y = x then k else indexOf_from (k + 1) ys x)"

definition indexOf :: "node list \<Rightarrow> node option \<Rightarrow> int" where
  "indexOf xs x = (case x of None \<Rightarrow> -1 | Some n \<Rightarrow> indexOf_from 0 xs n)"

text \<open>\<^verbatim>\<open>nodeList[index]?.id\<close>: reading a node list at an integer outside
  \<open>0 .. length - 1\<close> gives \<^verbatim>\<open>undefined\<close>, and \<^verbatim>\<open>?.\<close> passes it on.\<close>

definition item_at :: "'a list \<Rightarrow> int \<Rightarrow> 'a option" where
  "item_at xs i = (if 0 \<le> i \<and> i < int (length xs) then Some (xs ! nat i) else None)"

subsection \<open>Options, host and component\<close>

text \<open>The options of the factory that the methods read. A method name is a string or
  \<^verbatim>\<open>null\<close>.\<close>

record config =
  listItemRole :: string
  openMethod :: "string option"
  afterHighlightMethod :: "string option"
  beginningOfListMethod :: "string option"
  endOfListMethod :: "string option"
  scrollToOnHighlight_option :: bool
  focusOnKeyboardNavigation_option :: bool

text \<open>The defaults of the factory's parameter list.\<close>

definition default_config :: config where
  "default_config =
     \<lparr>listItemRole = ''option'', openMethod = None, afterHighlightMethod = None,
      beginningOfListMethod = None, endOfListMethod = None,
      scrollToOnHighlight_option = True, focusOnKeyboardNavigation_option = False\<rparr>"

text \<open>\<^verbatim>\<open>if (openMethod)\<close>: \<^verbatim>\<open>null\<close> and the empty string are falsy, every other string
  is truthy.\<close>

definition truthy :: "string option \<Rightarrow> bool" where
  "truthy m = (case m of None \<Rightarrow> False | Some s \<Rightarrow> s \<noteq> [])"

text \<open>What a method does that is visible outside it, in the order it happens.\<close>

datatype event =
    Write_index "int option"
  | Write_id "string option"
  | Console_error
  | Call_open
  | Call_beginningOfList
  | Call_endOfList
  | Call_afterHighlight "int option"
  | Next_tick
  | Scroll_call element "dom option"
  | Focus_call element

text \<open>
  The rest of an \<^verbatim>\<open>async\<close> method after its \<^verbatim>\<open>await this.$nextTick()\<close>: it runs when
  the promise of \<^verbatim>\<open>$nextTick\<close> resolves. \<^verbatim>\<open>setHighlightIndex\<close> has captured \<^verbatim>\<open>num\<close>,
  \<^verbatim>\<open>setHighlightId\<close> has captured \<^verbatim>\<open>id\<close>.
\<close>

datatype continuation = After_setHighlightIndex int | After_setHighlightId string

text \<open>The promise an \<^verbatim>\<open>async\<close> method returns, as it stands when the call returns. An
  exception in the body of an \<^verbatim>\<open>async\<close> method rejects the promise; it is not thrown
  to the caller.\<close>

datatype promise = Fulfilled | Rejected js_error | Awaiting_nextTick

text \<open>The component: the four fields of \<^verbatim>\<open>data ()\<close>, the trace of what has happened
  and the continuations that wait for the next tick.\<close>

record component =
  highlightIndex :: "int option"
  highlightId :: "string option"
  scrollToOnHighlight :: bool
  focusOnKeyboardNavigation :: bool
  trace :: "event list"
  pending :: "continuation list"

text \<open>\<^verbatim>\<open>data ()\<close>\<close>

definition data :: "config \<Rightarrow> component" where
  "data cfg =
     \<lparr>highlightIndex = Some (- 1), highlightId = Some [],
      scrollToOnHighlight = scrollToOnHighlight_option cfg,
      focusOnKeyboardNavigation = focusOnKeyboardNavigation_option cfg,
      trace = [], pending = []\<rparr>"

text \<open>
  What \<^verbatim>\<open>this[listElementKey]()\<close> returns: nothing (\<^verbatim>\<open>null\<close> or \<^verbatim>\<open>undefined\<close>), a
  mounted Vue component (whose \<^verbatim>\<open>$el\<close> is an element) or an element.
\<close>

datatype list_ref = No_ref | Component_ref dom | Element_ref dom

text \<open>What a hook is called with: \<^verbatim>\<open>this[openMethod](true)\<close>, and no argument for the two
  boundary hooks.\<close>

datatype argument = Without_argument | With_true

text \<open>
  The host: its list accessor, its active item (\<^verbatim>\<open>this[activeItemKey]\<close>, a computed
  property, hence a function of the component; \<open>None\<close> when the key is the default
  \<^verbatim>\<open>''\<close>), the browser's selector engine for the ids \<open>classify_hash\<close> leaves open, and
  the methods of the component by name, as \<^verbatim>\<open>this[name]\<close> finds them.
\<close>

record host =
  listRef :: list_ref
  activeItem :: "component \<Rightarrow> element option"
  selectorEngine :: selector_engine
  methods :: "string \<Rightarrow> argument \<Rightarrow> component \<Rightarrow> component"

definition emit :: "event \<Rightarrow> component \<Rightarrow> component" where
  "emit e vm = vm\<lparr>trace := trace vm @ [e]\<rparr>"

text \<open>\<^verbatim>\<open>this[indexKey] = v\<close> and \<^verbatim>\<open>this[idKey] = v\<close>\<close>

definition set_index :: "int option \<Rightarrow> component \<Rightarrow> component" where
  "set_index v vm = emit (Write_index v) (vm\<lparr>highlightIndex := v\<rparr>)"

definition set_id :: "string option \<Rightarrow> component \<Rightarrow> component" where
  "set_id v vm = emit (Write_id v) (vm\<lparr>highlightId := v\<rparr>)"

definition suspend :: "continuation \<Rightarrow> component \<Rightarrow> component" where
  "suspend k vm = vm\<lparr>pending := pending vm @ [k]\<rparr>"

subsection \<open>The methods\<close>

text \<open>The methods keep their names; Isabelle has no name with a leading underscore, so
  \<^verbatim>\<open>_getListElement\<close>, \<^verbatim>\<open>_itemsLength\<close>, \<^verbatim>\<open>_getItemIndex\<close> and \<^verbatim>\<open>_getItemId\<close> lose
  theirs.\<close>

text \<open>\<^verbatim>\<open>return this[listElementKey]()?.$el || this[listElementKey]();\<close>\<close>

definition getListElement :: "host \<Rightarrow> dom option" where
  "getListElement h =
     (case listRef h of No_ref \<Rightarrow> None | Component_ref d \<Rightarrow> Some d | Element_ref d \<Rightarrow> Some d)"

definition itemsLength :: "config \<Rightarrow> host \<Rightarrow> component \<Rightarrow> nat \<times> component" where
  "itemsLength cfg h vm =
     (case getListElement h of
        None \<Rightarrow> (0, emit Console_error vm)
      | Some d \<Rightarrow> (length (querySelectorAll_role (listItemRole cfg) d), vm))"

definition getItemIndex ::
  "config \<Rightarrow> host \<Rightarrow> string \<Rightarrow> component \<Rightarrow> (js_error + int option) \<times> component" where
  "getItemIndex cfg h i vm =
     (case getListElement h of
        None \<Rightarrow> (Inr None, vm)
      | Some d \<Rightarrow>
          (let listItems = querySelectorAll_role (listItemRole cfg) d in
           case querySelector_hash (selectorEngine h) i d of
             Inl e \<Rightarrow> (Inl e, vm)
           | Inr x \<Rightarrow> (Inr (Some (indexOf listItems x)), vm)))"

definition getItemId :: "config \<Rightarrow> host \<Rightarrow> int \<Rightarrow> component \<Rightarrow> string option \<times> component" where
  "getItemId cfg h index vm =
     (case getListElement h of
        None \<Rightarrow> (None, vm)
      | Some d \<Rightarrow>
          (map_option (\<lambda>n. elem_id (d ! n))
             (item_at (querySelectorAll_role (listItemRole cfg) d) index), vm))"

text \<open>
  Modelled from the spec: the method \<^verbatim>\<open>scrollElementIntoViewIfNeeded\<close> comes from the mixin
  \<^verbatim>\<open>./dom\<close>, which is not among the sources. The spec has it scroll the active item into
  view within its list container; the model records the call with the element and the
  container that the caller passes.
\<close>

definition scrollElementIntoViewIfNeeded :: "element \<Rightarrow> dom option \<Rightarrow> component \<Rightarrow> component" where
  "scrollElementIntoViewIfNeeded el listElement vm = emit (Scroll_call el listElement) vm"

definition scrollActiveItemIntoViewIfNeeded :: "host \<Rightarrow> component \<Rightarrow> component" where
  "scrollActiveItemIntoViewIfNeeded h vm =
     (if \<not> scrollToOnHighlight vm then vm
      else (case activeItem h vm of
              None \<Rightarrow> vm
            | Some activeItemEl \<Rightarrow>
                scrollElementIntoViewIfNeeded activeItemEl (getListElement h) vm))"

definition focusActiveItemIfNeeded :: "host \<Rightarrow> component \<Rightarrow> component" where
  "focusActiveItemIfNeeded h vm =
     (if \<not> focusOnKeyboardNavigation vm then vm
      else (case activeItem h vm of
              None \<Rightarrow> vm
            | Some activeItemEl \<Rightarrow> emit (Focus_call activeItemEl) vm))"

text \<open>
  \<^verbatim>\<open>if (this._itemsLength() && afterHighlightMethod) { await this.$nextTick(); ... }\<close>,
  the end of both setters up to the \<^verbatim>\<open>await\<close>: the count is always taken, and when it
  and the method name are truthy, \<^verbatim>\<open>$nextTick\<close> is called and the method is
  suspended with the continuation \<open>k\<close>.
\<close>

definition await_afterHighlight ::
  "config \<Rightarrow> host \<Rightarrow> continuation \<Rightarrow> component \<Rightarrow> promise \<times> component" where
  "await_afterHighlight cfg h k vm =
     (case itemsLength cfg h vm of
        (n, vm') \<Rightarrow>
          if n \<noteq> 0 \<and> truthy (afterHighlightMethod cfg)
          then (Awaiting_nextTick, suspend k (emit Next_tick vm'))
          else (Fulfilled, vm'))"

definition setHighlightIndex :: "config \<Rightarrow> host \<Rightarrow> int \<Rightarrow> component \<Rightarrow> promise \<times> component" where
  "setHighlightIndex cfg h num vm =
     (let vm1 = set_index (Some num) vm in
      case getItemId cfg h num vm1 of
        (i, vm2) \<Rightarrow> await_afterHighlight cfg h (After_setHighlightIndex num) (set_id i vm2))"

definition setHighlightId :: "config \<Rightarrow> host \<Rightarrow> string \<Rightarrow> component \<Rightarrow> promise \<times> component" where
  "setHighlightId cfg h i vm =
     (let vm1 = set_id (Some i) vm in
      case getItemIndex cfg h i vm1 of
        (Inl e, vm2) \<Rightarrow> (Rejected e, vm2)
      | (Inr k, vm2) \<Rightarrow> await_afterHighlight cfg h (After_setHighlightId i) (set_index k vm2))"

text \<open>
  The continuation of a setter: \<^verbatim>\<open>this[afterHighlightMethod](num)\<close>, respectively
  \<^verbatim>\<open>this[afterHighlightMethod](this._getItemIndex(id))\<close>. The call is the last thing
  the continuation does, and the model ends with the call: what the body of that
  method does to the component comes after all code of the mixin, as the operations
  that follow the tick do.
\<close>

definition resume :: "config \<Rightarrow> host \<Rightarrow> continuation \<Rightarrow> component \<Rightarrow> promise \<times> component" where
  "resume cfg h k vm =
     (case k of
        After_setHighlightIndex num \<Rightarrow> (Fulfilled, emit (Call_afterHighlight (Some num)) vm)
      | After_setHighlightId i \<Rightarrow>
          (case getItemIndex cfg h i vm of
             (Inl e, vm') \<Rightarrow> (Rejected e, vm')
           | (Inr k', vm') \<Rightarrow> (Fulfilled, emit (Call_afterHighlight k') vm')))"

text \<open>The next tick: the suspended methods resume in the order in which they called
  \<^verbatim>\<open>$nextTick\<close>.\<close>

definition nextTick :: "config \<Rightarrow> host \<Rightarrow> component \<Rightarrow> component" where
  "nextTick cfg h vm =
     foldl (\<lambda>v k. snd (resume cfg h k v)) (vm\<lparr>pending := []\<rparr>) (pending vm)"

text \<open>\<^verbatim>\<open>this[name](...)\<close> for a method name that is truthy: the method of that name runs
  on the component.\<close>

definition call_method :: "host \<Rightarrow> string option \<Rightarrow> argument \<Rightarrow> component \<Rightarrow> component" where
  "call_method h m a vm = (case m of None \<Rightarrow> vm | Some name \<Rightarrow> methods h name a vm)"

text \<open>\<^verbatim>\<open>if (openMethod) { this[openMethod](true); }\<close>\<close>

definition call_open :: "config \<Rightarrow> host \<Rightarrow> component \<Rightarrow> component" where
  "call_open cfg h vm =
     (if truthy (openMethod cfg)
      then call_method h (openMethod cfg) With_true (emit Call_open vm)
      else vm)"

text \<open>\<^verbatim>\<open>else if (beginningOfListMethod) { this[beginningOfListMethod](); }\<close> and the same
  for the end of the list.\<close>

definition call_beginningOfList :: "config \<Rightarrow> host \<Rightarrow> component \<Rightarrow> component" where
  "call_beginningOfList cfg h vm =
     (if truthy (beginningOfListMethod cfg)
      then call_method h (beginningOfListMethod cfg) Without_argument (emit Call_beginningOfList vm)
      else vm)"

definition call_endOfList :: "config \<Rightarrow> host \<Rightarrow> component \<Rightarrow> component" where
  "call_endOfList cfg h vm =
     (if truthy (endOfListMethod cfg)
      then call_method h (endOfListMethod cfg) Without_argument (emit Call_endOfList vm)
      else vm)"

text \<open>In \<^verbatim>\<open>this[indexKey] > 0\<close> and \<^verbatim>\<open>this[indexKey] < n\<close> an index that is
  \<^verbatim>\<open>undefined\<close> converts to \<^verbatim>\<open>NaN\<close>, and both comparisons are false. The index is read
  after the open hook has run. The promise of \<^verbatim>\<open>setHighlightIndex\<close> is dropped.\<close>

definition onUpKey :: "config \<Rightarrow> host \<Rightarrow> component \<Rightarrow> component" where
  "onUpKey cfg h vm =
     (let vm1 = call_open cfg h vm;
          vm2 = (case highlightIndex vm1 of
                   None \<Rightarrow> call_beginningOfList cfg h vm1
                 | Some i \<Rightarrow>
                     if i > 0 then snd (setHighlightIndex cfg h (js_minus i 1) vm1)
                     else call_beginningOfList cfg h vm1)
      in focusActiveItemIfNeeded h (scrollActiveItemIntoViewIfNeeded h vm2))"

definition onDownKey :: "config \<Rightarrow> host \<Rightarrow> component \<Rightarrow> component" where
  "onDownKey cfg h vm =
     (let vm1 = call_open cfg h vm in
      case itemsLength cfg h vm1 of
        (n, vm2) \<Rightarrow>
          (let vm3 = (case highlightIndex vm1 of
                        None \<Rightarrow> call_endOfList cfg h vm2
                      | Some i \<Rightarrow>
                          if i < js_minus (int n) 1
                          then snd (setHighlightIndex cfg h (js_plus i 1) vm2)
                          else call_endOfList cfg h vm2)
           in focusActiveItemIfNeeded h (scrollActiveItemIntoViewIfNeeded h vm3)))"

definition jumpToBeginning :: "config \<Rightarrow> host \<Rightarrow> component \<Rightarrow> component" where
  "jumpToBeginning cfg h vm = snd (setHighlightIndex cfg h 0 vm)"

definition jumpToEnd :: "config \<Rightarrow> host \<Rightarrow> component \<Rightarrow> component" where
  "jumpToEnd cfg h vm =
     (case itemsLength cfg h vm of
        (n, vm') \<Rightarrow> snd (setHighlightIndex cfg h (js_minus (int n) 1) vm'))"

definition onHomeKey :: "config \<Rightarrow> host \<Rightarrow> component \<Rightarrow> component" where
  "onHomeKey cfg h vm =
     focusActiveItemIfNeeded h (scrollActiveItemIntoViewIfNeeded h (jumpToBeginning cfg h vm))"

definition onEndKey :: "config \<Rightarrow> host \<Rightarrow> component \<Rightarrow> component" where
  "onEndKey cfg h vm =
     focusActiveItemIfNeeded h (scrollActiveItemIntoViewIfNeeded h (jumpToEnd cfg h vm))"

subsection \<open>Notions the properties are stated with\<close>

text \<open>The role-matched rendered items of the host's list, in document order; none when
  the list accessor returns nothing.\<close>

definition role_items :: "config \<Rightarrow> host \<Rightarrow> element list" where
  "role_items cfg h =
     (case getListElement h of
        None \<Rightarrow> []
      | Some d \<Rightarrow> map (\<lambda>n. d ! n) (querySelectorAll_role (listItemRole cfg) d))"

text \<open>An item is highlighted when the stored index is the position of a role-matched
  item.\<close>

definition highlighted :: "config \<Rightarrow> host \<Rightarrow> component \<Rightarrow> bool" where
  "highlighted cfg h vm =
     (case highlightIndex vm of
        None \<Rightarrow> False
      | Some i \<Rightarrow> 0 \<le> i \<and> i < int (length (role_items cfg h)))"

text \<open>What \<^verbatim>\<open>_itemsLength\<close> logs: the diagnostic, when the list accessor returns nothing.\<close>

definition diagnostic :: "host \<Rightarrow> event list" where
  "diagnostic h = (if getListElement h = None then [Console_error] else [])"

text \<open>How often an event has happened so far.\<close>

definition calls :: "event \<Rightarrow> component \<Rightarrow> nat" where
  "calls e vm = count_list (trace vm) e"

text \<open>The operations of the mixin that a host invokes, and the tick between them.\<close>

datatype operation =
    OnUpKey
  | OnDownKey
  | OnHomeKey
  | OnEndKey
  | JumpToBeginning
  | JumpToEnd
  | SetHighlightIndex int
  | SetHighlightId string
  | NextTick

fun perform :: "config \<Rightarrow> host \<Rightarrow> operation \<Rightarrow> component \<Rightarrow> component" where
  "perform cfg h OnUpKey vm = onUpKey cfg h vm"
| "perform cfg h OnDownKey vm = onDownKey cfg h vm"
| "perform cfg h OnHomeKey vm = onHomeKey cfg h vm"
| "perform cfg h OnEndKey vm = onEndKey cfg h vm"
| "perform cfg h JumpToBeginning vm = jumpToBeginning cfg h vm"
| "perform cfg h JumpToEnd vm = jumpToEnd cfg h vm"
| "perform cfg h (SetHighlightIndex num) vm = snd (setHighlightIndex cfg h num vm)"
| "perform cfg h (SetHighlightId i) vm = snd (setHighlightId cfg h i vm)"
| "perform cfg h NextTick vm = nextTick cfg h vm"

text \<open>The state a component is in after a sequence of operations from \<^verbatim>\<open>data ()\<close>, over
  one unchanged host.\<close>

definition run :: "config \<Rightarrow> host \<Rightarrow> operation list \<Rightarrow> component" where
  "run cfg h ops = foldl (\<lambda>vm op. perform cfg h op vm) (data cfg) ops"

text \<open>An operation whose id, if it passes one, is an ASCII identifier: made of ASCII
  letters, digits, \<^verbatim>\<open>-\<close> and \<^verbatim>\<open>_\<close> only, with a letter or \<^verbatim>\<open>_\<close> first, or \<^verbatim>\<open>-\<close> and then a
  letter or \<^verbatim>\<open>_\<close>. These are the ids that \<open>classify_hash\<close> makes an ID selector.\<close>

fun ascii_identifier :: "operation \<Rightarrow> bool" where
  "ascii_identifier (SetHighlightId i) = (classify_hash i = Id_selector)"
| "ascii_identifier _ = True"

text \<open>An operation whose index, if it passes one, is \<open>-1\<close> or a position of the list.\<close>

fun position_or_idle :: "config \<Rightarrow> host \<Rightarrow> operation \<Rightarrow> bool" where
  "position_or_idle cfg h (SetHighlightIndex n) =
     (n = - 1 \<or> (0 \<le> n \<and> n < int (length (role_items cfg h))))"
| "position_or_idle cfg h _ = True"

text \<open>
  The three hooks that the key handlers call, as functions on the component: the
  method that the option names, run with the argument of that hook, and the identity
  for a hook that is not configured.
\<close>

definition open_body :: "config \<Rightarrow> host \<Rightarrow> component \<Rightarrow> component" where
  "open_body cfg h =
     (if truthy (openMethod cfg) then call_method h (openMethod cfg) With_true else id)"

definition beginningOfList_body :: "config \<Rightarrow> host \<Rightarrow> component \<Rightarrow> component" where
  "beginningOfList_body cfg h =
     (if truthy (beginningOfListMethod cfg)
      then call_method h (beginningOfListMethod cfg) Without_argument else id)"

definition endOfList_body :: "config \<Rightarrow> host \<Rightarrow> component \<Rightarrow> component" where
  "endOfList_body cfg h =
     (if truthy (endOfListMethod cfg)
      then call_method h (endOfListMethod cfg) Without_argument else id)"

definition hook_bodies :: "config \<Rightarrow> host \<Rightarrow> (component \<Rightarrow> component) list" where
  "hook_bodies cfg h = [open_body cfg h, beginningOfList_body cfg h, endOfList_body cfg h]"

text \<open>
  A method that leaves the highlight alone: it writes neither the index nor the id,
  suspends nothing and calls neither boundary hook. A method of the host that does not
  use the mixin is like that.
\<close>

definition leaves_highlight :: "(component \<Rightarrow> component) \<Rightarrow> bool" where
  "leaves_highlight f =
     (\<forall>vm. highlightIndex (f vm) = highlightIndex vm \<and>
           highlightId (f vm) = highlightId vm \<and>
           pending (f vm) = pending vm \<and>
           calls Call_beginningOfList (f vm) = calls Call_beginningOfList vm \<and>
           calls Call_endOfList (f vm) = calls Call_endOfList vm)"

definition hooks_leave_highlight :: "config \<Rightarrow> host \<Rightarrow> bool" where
  "hooks_leave_highlight cfg h = list_all leaves_highlight (hook_bodies cfg h)"

text \<open>A method that keeps a property of the component.\<close>

definition preserves :: "(component \<Rightarrow> bool) \<Rightarrow> (component \<Rightarrow> component) \<Rightarrow> bool" where
  "preserves P f = (\<forall>vm. P vm \<longrightarrow> P (f vm))"

text \<open>The first invariant: a stored index that is the position of an item comes with
  the id of that item.\<close>

definition id_matches_index :: "config \<Rightarrow> host \<Rightarrow> component \<Rightarrow> bool" where
  "id_matches_index cfg h vm =
     (case highlightIndex vm of
        None \<Rightarrow> True
      | Some i \<Rightarrow>
          0 \<le> i \<and> i < int (length (role_items cfg h)) \<longrightarrow>
          highlightId vm = Some (elem_id (role_items cfg h ! nat i)))"

text \<open>The second invariant: the stored index is \<open>-1\<close> or a position of the list.\<close>

definition index_in_list :: "config \<Rightarrow> host \<Rightarrow> component \<Rightarrow> bool" where
  "index_in_list cfg h vm =
     (case highlightIndex vm of
        None \<Rightarrow> False
      | Some i \<Rightarrow> i = - 1 \<or> (0 \<le> i \<and> i < int (length (role_items cfg h))))"

subsection \<open>Example hosts\<close>

text \<open>A list item \<^verbatim>\<open><li role="option" id=...>\<close>, the list of the three items
  \<^verbatim>\<open>a\<close>, \<^verbatim>\<open>b\<close>, \<^verbatim>\<open>c\<close>, a list element without items, a list with one id twice, a
  list whose item has a numeric id, and a host whose accessor returns nothing. The
  methods of these hosts leave the component as it is.\<close>

definition li :: "string \<Rightarrow> element" where
  "li i = \<lparr>elem_role = Some ''option'', elem_id = i\<rparr>"

definition host_of :: "list_ref \<Rightarrow> host" where
  "host_of r =
     \<lparr>listRef = r, activeItem = (\<lambda>vm. None), selectorEngine = (\<lambda>i d. Inr None),
      methods = (\<lambda>name a vm. vm)\<rparr>"

definition abc_host :: host where
  "abc_host = host_of (Element_ref [li ''a'', li ''b'', li ''c''])"

definition empty_host :: host where
  "empty_host = host_of (Element_ref [])"

definition twice_host :: host where
  "twice_host = host_of (Element_ref [li ''a'', li ''a''])"

definition numeric_host :: host where
  "numeric_host = host_of (Element_ref [li ''1''])"

definition no_list_host :: host where
  "no_list_host = host_of No_ref"

text \<open>The default options with all four hooks configured.\<close>

definition hooked_config :: config where
  "hooked_config =
     default_config\<lparr>openMethod := Some ''open'', afterHighlightMethod := Some ''afterHighlight'',
       beginningOfListMethod := Some ''beginningOfList'', endOfListMethod := Some ''endOfList''\<rparr>"

text \<open>
  A component that wraps around: the boundary hooks are the mixin's own \<^verbatim>\<open>jumpToEnd\<close> and
  \<^verbatim>\<open>jumpToBeginning\<close>, which the component has under these names when the host defines
  no method of its own with them. (The two methods read only the list of the host.)
\<close>

definition wrap_config :: config where
  "wrap_config =
     default_config\<lparr>beginningOfListMethod := Some ''jumpToEnd'',
       endOfListMethod := Some ''jumpToBeginning''\<rparr>"

definition own_method :: "config \<Rightarrow> host \<Rightarrow> string \<Rightarrow> argument \<Rightarrow> component \<Rightarrow> component" where
  "own_method cfg h name a vm =
     (if name = ''jumpToBeginning'' then jumpToBeginning cfg h vm
      else if name = ''jumpToEnd'' then jumpToEnd cfg h vm
      else vm)"

definition wrap_host :: "list_ref \<Rightarrow> host" where
  "wrap_host r = (host_of r)\<lparr>methods := own_method wrap_config (host_of r)\<rparr>"

section \<open>Basic facts\<close>

text \<open>
  The equations of \<open>classify_hash\<close> and \<open>bit_length\<close> are unfolded by name only, so that
  a hypothesis \<open>classify_hash i = Id_selector\<close> stays as it is written and a numeral is
  not taken apart digit by digit.
\<close>

declare classify_hash.simps [simp del]

declare bit_length.simps [simp del]

subsection \<open>Fields of the component\<close>

lemma emit_fields:
  "highlightIndex (emit e vm) = highlightIndex vm"
  "highlightId (emit e vm) = highlightId vm"
  "scrollToOnHighlight (emit e vm) = scrollToOnHighlight vm"
  "focusOnKeyboardNavigation (emit e vm) = focusOnKeyboardNavigation vm"
  "pending (emit e vm) = pending vm"
  "trace (emit e vm) = trace vm @ [e]"
  by (simp_all add: emit_def)

lemma set_fields:
  "highlightIndex (set_index v vm) = v" "highlightId (set_index v vm) = highlightId vm"
  "highlightIndex (set_id w vm) = highlightIndex vm" "highlightId (set_id w vm) = w"
  by (simp_all add: set_index_def set_id_def emit_def)

lemma calls_emit: "calls e (emit e' vm) = calls e vm + (if e' = e then 1 else 0)"
  by (simp add: calls_def emit_def)

lemma data_fields:
  "highlightIndex (data cfg) = Some (- 1)" "highlightId (data cfg) = Some []"
  "trace (data cfg) = []" "pending (data cfg) = []"
  by (simp_all add: data_def)

lemma calls_data: "calls e (data cfg) = 0"
  by (simp add: calls_def data_def)

subsection \<open>JavaScript numbers\<close>

lemma js_number_exact: "\<bar>x\<bar> \<le> 2 ^ 53 \<Longrightarrow> js_number x = x"
  by (simp add: js_number_def)

lemma js_unit:
  "- (2 ^ 53) \<le> i \<Longrightarrow> i < 2 ^ 53 \<Longrightarrow> js_plus i 1 = i + 1"
  "- (2 ^ 53) < i \<Longrightarrow> i \<le> 2 ^ 53 \<Longrightarrow> js_minus i 1 = i - 1"
  by (simp_all add: js_plus_def js_minus_def js_number_exact abs_le_iff)

lemma js_minus_length: "int n \<le> 2 ^ 53 \<Longrightarrow> js_minus (int n) 1 = int n - 1"
  by (simp add: js_minus_def js_number_exact abs_le_iff)

lemma js_number_tie: "js_number 9007199254740993 = 9007199254740992"
  by (simp add: js_number_def bit_length.simps)

subsection \<open>Queries on the list\<close>

lemma distinct_querySelectorAll_role: "distinct (querySelectorAll_role r d)"
  by (simp add: querySelectorAll_role_def)

lemma indexOf_from_nth:
  "distinct xs \<Longrightarrow> k < length xs \<Longrightarrow> indexOf_from j xs (xs ! k) = j + int k"
proof (induction xs arbitrary: j k)
  case Nil
  then show ?case by simp
next
  case (Cons y ys)
  show ?case
  proof (cases k)
    case 0
    then show ?thesis by simp
  next
    case (Suc k')
    with Cons.prems have "ys ! k' \<noteq> y" "k' < length ys" "distinct ys"
      by auto
    with Cons.IH [of k' "j + 1"] Suc show ?thesis
      by simp
  qed
qed

lemma indexOf_from_range:
  "indexOf_from j xs x = - 1 \<or>
   (\<exists>p < length xs. indexOf_from j xs x = j + int p \<and> xs ! p = x)"
proof (induction xs arbitrary: j)
  case Nil
  then show ?case by simp
next
  case (Cons y ys)
  show ?case
  proof (cases "y = x")
    case True
    then show ?thesis by auto
  next
    case False
    from Cons.IH [of "j + 1"] show ?thesis
    proof
      assume "indexOf_from (j + 1) ys x = - 1"
      with False show ?thesis by simp
    next
      assume "\<exists>p < length ys. indexOf_from (j + 1) ys x = j + 1 + int p \<and> ys ! p = x"
      then obtain p where "p < length ys" "indexOf_from (j + 1) ys x = j + 1 + int p" "ys ! p = x"
        by blast
      with False have "Suc p < length (y # ys) \<and>
          indexOf_from j (y # ys) x = j + int (Suc p) \<and> (y # ys) ! Suc p = x"
        by simp
      then show ?thesis by blast
    qed
  qed
qed

lemma indexOf_found:
  "0 \<le> indexOf xs x \<Longrightarrow>
   \<exists>n. x = Some n \<and> nat (indexOf xs x) < length xs \<and> xs ! nat (indexOf xs x) = n"
proof (cases x)
  case None
  assume "0 \<le> indexOf xs x"
  with None show ?thesis by (simp add: indexOf_def)
next
  case (Some n)
  assume "0 \<le> indexOf xs x"
  with Some have found: "0 \<le> indexOf_from 0 xs n"
    by (simp add: indexOf_def)
  with indexOf_from_range [of 0 xs n]
  obtain p where "p < length xs" "indexOf_from 0 xs n = int p" "xs ! p = n"
    by auto
  with Some show ?thesis
    by (simp add: indexOf_def)
qed

lemma first_with_id_Some: "first_with_id i d = Some n \<Longrightarrow> n < length d \<and> elem_id (d ! n) = i"
  by (auto simp add: first_with_id_def find_Some_iff)

lemma item_at_Nil: "item_at [] n = None"
  by (simp add: item_at_def)

lemma role_items_None: "getListElement h = None \<Longrightarrow> role_items cfg h = []"
  by (simp add: role_items_def)

lemma getListElement_No_ref: "listRef h = No_ref \<Longrightarrow> getListElement h = None"
  by (simp add: getListElement_def)


lemma count_diagnostic: "e \<noteq> Console_error \<Longrightarrow> count_list (diagnostic h) e = 0"
  by (simp add: diagnostic_def)

lemma find_filter_Cons: "filter P xs = x # ys \<Longrightarrow> find P xs = Some x"
  by (induction xs) (auto split: if_splits)

lemma first_with_id_only:
  "filter (\<lambda>n. elem_id (d ! n) = i) [0..<length d] = [n] \<Longrightarrow> first_with_id i d = Some n"
  by (simp add: first_with_id_def find_filter_Cons)

lemma Id_selector_iff:
  "classify_hash i = Id_selector \<longleftrightarrow>
     i \<noteq> [] \<and> list_all is_name_char i \<and>
     (is_ident_start (hd i) \<or>
      (hd i = CHR ''-'' \<and> tl i \<noteq> [] \<and> is_ident_start (hd (tl i))))"
proof (cases i)
  case Nil
  then show ?thesis by (simp add: classify_hash.simps)
next
  case (Cons c cs)
  then show ?thesis
    by (cases cs) (auto simp add: classify_hash.simps is_name_char_def is_ident_start_def
        is_digit_def is_letter_def Let_def)
qed

subsection \<open>The resolution methods\<close>

lemma itemsLength_eq:
  "itemsLength cfg h vm =
     (length (role_items cfg h),
      if getListElement h = None then emit Console_error vm else vm)"
  by (simp add: itemsLength_def role_items_def split: option.split)

lemma getItemId_eq:
  "getItemId cfg h i vm = (map_option elem_id (item_at (role_items cfg h) i), vm)"
  by (auto simp add: getItemId_def role_items_def item_at_def split: option.split)

lemma getItemIndex_snd: "snd (getItemIndex cfg h i vm) = vm"
  by (simp add: getItemIndex_def Let_def split: option.split sum.split)

lemma getItemIndex_component: "getItemIndex cfg h i vm = (r, vm') \<Longrightarrow> vm' = vm"
  using getItemIndex_snd [of cfg h i vm] by simp

lemma getItemIndex_None:
  "getListElement h = None \<Longrightarrow> getItemIndex cfg h i vm = (Inr None, vm)"
  by (simp add: getItemIndex_def)

lemma getItemIndex_Id_selector:
  "getListElement h = Some d \<Longrightarrow> classify_hash i = Id_selector \<Longrightarrow>
   getItemIndex cfg h i vm =
     (Inr (Some (indexOf (querySelectorAll_role (listItemRole cfg) d) (first_with_id i d))), vm)"
  by (simp add: getItemIndex_def querySelector_hash_def)

lemma itemsLength_fst: "fst (itemsLength cfg h vm) = length (role_items cfg h)"
  by (simp add: itemsLength_eq)

subsection \<open>The two setters and the next tick\<close>

lemma await_afterHighlight_fields:
  "highlightIndex (snd (await_afterHighlight cfg h k vm)) = highlightIndex vm"
  "highlightId (snd (await_afterHighlight cfg h k vm)) = highlightId vm"
  by (simp_all add: await_afterHighlight_def itemsLength_eq suspend_def emit_def)

lemma await_afterHighlight_empty:
  "role_items cfg h = [] \<Longrightarrow>
   await_afterHighlight cfg h k vm = (Fulfilled, vm\<lparr>trace := trace vm @ diagnostic h\<rparr>)"
  by (simp add: await_afterHighlight_def itemsLength_eq diagnostic_def emit_def)

lemma setHighlightIndex_eq:
  "setHighlightIndex cfg h n vm =
     (let i = map_option elem_id (item_at (role_items cfg h) n);
          es = [Write_index (Some n), Write_id i] @ diagnostic h
      in if role_items cfg h \<noteq> [] \<and> truthy (afterHighlightMethod cfg)
         then (Awaiting_nextTick,
               vm\<lparr>highlightIndex := Some n, highlightId := i,
                  trace := trace vm @ es @ [Next_tick],
                  pending := pending vm @ [After_setHighlightIndex n]\<rparr>)
         else (Fulfilled,
               vm\<lparr>highlightIndex := Some n, highlightId := i, trace := trace vm @ es\<rparr>))"
  by (simp add: setHighlightIndex_def getItemId_eq await_afterHighlight_def itemsLength_eq
      set_index_def set_id_def emit_def suspend_def Let_def role_items_None diagnostic_def)

lemma setHighlightIndex_index: "highlightIndex (snd (setHighlightIndex cfg h n vm)) = Some n"
  by (simp add: setHighlightIndex_eq Let_def)

lemma setHighlightIndex_id:
  "highlightId (snd (setHighlightIndex cfg h n vm)) = map_option elem_id (item_at (role_items cfg h) n)"
  by (simp add: setHighlightIndex_eq Let_def)

lemma setHighlightIndex_calls:
  "e = Call_endOfList \<or> e = Call_beginningOfList \<Longrightarrow>
   calls e (snd (setHighlightIndex cfg h n vm)) = calls e vm"
  by (auto simp add: setHighlightIndex_eq Let_def calls_def count_diagnostic)

lemma setHighlightIndex_pending:
  "role_items cfg h = [] \<Longrightarrow> pending (snd (setHighlightIndex cfg h n vm)) = pending vm"
  by (simp add: setHighlightIndex_eq Let_def)

lemma setHighlightId_eq:
  "setHighlightId cfg h i vm =
     (case fst (getItemIndex cfg h i vm) of
        Inl e \<Rightarrow> (Rejected e, set_id (Some i) vm)
      | Inr k \<Rightarrow>
          await_afterHighlight cfg h (After_setHighlightId i) (set_index k (set_id (Some i) vm)))"
proof -
  have "getItemIndex cfg h i (set_id (Some i) vm) =
          (fst (getItemIndex cfg h i vm), set_id (Some i) vm)"
    by (simp add: getItemIndex_def Let_def split: option.split sum.split)
  then show ?thesis
    by (simp add: setHighlightId_def Let_def split: sum.split)
qed

lemma setHighlightId_id: "highlightId (snd (setHighlightId cfg h i vm)) = Some i"
  by (auto simp add: setHighlightId_def Let_def await_afterHighlight_fields set_index_def set_id_def
      emit_def dest!: getItemIndex_component split: prod.split sum.split)

lemma setHighlightId_index:
  "highlightIndex (snd (setHighlightId cfg h i vm)) =
     (case fst (getItemIndex cfg h i vm) of Inl e \<Rightarrow> highlightIndex vm | Inr k \<Rightarrow> k)"
proof -
  have "getItemIndex cfg h i (set_id (Some i) vm) =
          (fst (getItemIndex cfg h i vm), set_id (Some i) vm)"
    by (simp add: getItemIndex_def Let_def split: option.split sum.split)
  then show ?thesis
    by (simp add: setHighlightId_def Let_def await_afterHighlight_fields set_index_def set_id_def
        emit_def split: sum.split)
qed

lemma resume_fields:
  "highlightIndex (snd (resume cfg h k vm)) = highlightIndex vm"
  "highlightId (snd (resume cfg h k vm)) = highlightId vm"
  "pending (snd (resume cfg h k vm)) = pending vm"
  by (auto simp add: resume_def emit_fields dest: getItemIndex_component
      split: continuation.split prod.split sum.split)

lemma resume_all_fields:
  "highlightIndex (foldl (\<lambda>v k. snd (resume cfg h k v)) vm ks) = highlightIndex vm \<and>
   highlightId (foldl (\<lambda>v k. snd (resume cfg h k v)) vm ks) = highlightId vm \<and>
   pending (foldl (\<lambda>v k. snd (resume cfg h k v)) vm ks) = pending vm"
  by (induction ks arbitrary: vm) (simp_all add: resume_fields)

lemma nextTick_fields:
  "highlightIndex (nextTick cfg h vm) = highlightIndex vm"
  "highlightId (nextTick cfg h vm) = highlightId vm"
  "pending (nextTick cfg h vm) = []"
  by (simp_all add: nextTick_def resume_all_fields)

subsection \<open>The hooks\<close>

lemma call_open_body:
  "call_open cfg h vm =
     open_body cfg h (if truthy (openMethod cfg) then emit Call_open vm else vm)"
  by (simp add: call_open_def open_body_def)

lemma call_beginningOfList_body:
  "call_beginningOfList cfg h vm =
     beginningOfList_body cfg h
       (if truthy (beginningOfListMethod cfg) then emit Call_beginningOfList vm else vm)"
  by (simp add: call_beginningOfList_def beginningOfList_body_def)

lemma call_endOfList_body:
  "call_endOfList cfg h vm =
     endOfList_body cfg h (if truthy (endOfListMethod cfg) then emit Call_endOfList vm else vm)"
  by (simp add: call_endOfList_def endOfList_body_def)

lemma leaves_highlightD:
  assumes "leaves_highlight f"
  shows "highlightIndex (f vm) = highlightIndex vm"
    and "highlightId (f vm) = highlightId vm"
    and "pending (f vm) = pending vm"
    and "calls Call_beginningOfList (f vm) = calls Call_beginningOfList vm"
    and "calls Call_endOfList (f vm) = calls Call_endOfList vm"
  using assms by (simp_all add: leaves_highlight_def)

lemma hooks_leave_highlightD:
  assumes "hooks_leave_highlight cfg h"
  shows "leaves_highlight (open_body cfg h)"
    and "leaves_highlight (beginningOfList_body cfg h)"
    and "leaves_highlight (endOfList_body cfg h)"
  using assms by (simp_all add: hooks_leave_highlight_def hook_bodies_def)

lemma call_open_frame:
  assumes "leaves_highlight (open_body cfg h)"
  shows "highlightIndex (call_open cfg h vm) = highlightIndex vm"
    and "highlightId (call_open cfg h vm) = highlightId vm"
    and "pending (call_open cfg h vm) = pending vm"
    and "calls Call_beginningOfList (call_open cfg h vm) = calls Call_beginningOfList vm"
    and "calls Call_endOfList (call_open cfg h vm) = calls Call_endOfList vm"
  by (simp_all add: call_open_body leaves_highlightD [OF assms] emit_fields calls_emit)

lemma call_beginningOfList_frame:
  assumes "leaves_highlight (beginningOfList_body cfg h)"
  shows "highlightIndex (call_beginningOfList cfg h vm) = highlightIndex vm"
    and "highlightId (call_beginningOfList cfg h vm) = highlightId vm"
    and "pending (call_beginningOfList cfg h vm) = pending vm"
    and "calls Call_beginningOfList (call_beginningOfList cfg h vm) =
           calls Call_beginningOfList vm + (if truthy (beginningOfListMethod cfg) then 1 else 0)"
  by (simp_all add: call_beginningOfList_body leaves_highlightD [OF assms] emit_fields
      calls_emit)

lemma call_endOfList_frame:
  assumes "leaves_highlight (endOfList_body cfg h)"
  shows "highlightIndex (call_endOfList cfg h vm) = highlightIndex vm"
    and "highlightId (call_endOfList cfg h vm) = highlightId vm"
    and "pending (call_endOfList cfg h vm) = pending vm"
    and "calls Call_endOfList (call_endOfList cfg h vm) =
           calls Call_endOfList vm + (if truthy (endOfListMethod cfg) then 1 else 0)"
  by (simp_all add: call_endOfList_body leaves_highlightD [OF assms] emit_fields calls_emit)

lemma preservesD: "preserves P f \<Longrightarrow> P vm \<Longrightarrow> P (f vm)"
  by (simp add: preserves_def)

lemma hooks_preserve:
  assumes fields: "\<And>vm vm'. highlightIndex vm' = highlightIndex vm \<Longrightarrow>
      highlightId vm' = highlightId vm \<Longrightarrow> P vm' = P vm"
    and hooks: "list_all (preserves P) (hook_bodies cfg h)"
    and P: "P vm"
  shows "P (call_open cfg h vm)"
    and "P (call_beginningOfList cfg h vm)"
    and "P (call_endOfList cfg h vm)"
proof -
  have emitted: "P (emit e vm)" for e
    using fields [of "emit e vm" vm] P by (simp add: emit_fields)
  from hooks have "preserves P (open_body cfg h)" "preserves P (beginningOfList_body cfg h)"
    "preserves P (endOfList_body cfg h)"
    by (simp_all add: hook_bodies_def)
  with emitted P show "P (call_open cfg h vm)" "P (call_beginningOfList cfg h vm)"
    "P (call_endOfList cfg h vm)"
    by (simp_all add: call_open_body call_beginningOfList_body call_endOfList_body preservesD)
qed

subsection \<open>The key handlers\<close>

lemma scroll_fields:
  "highlightIndex (scrollActiveItemIntoViewIfNeeded h vm) = highlightIndex vm"
  "highlightId (scrollActiveItemIntoViewIfNeeded h vm) = highlightId vm"
  "pending (scrollActiveItemIntoViewIfNeeded h vm) = pending vm"
  by (simp_all add: scrollActiveItemIntoViewIfNeeded_def scrollElementIntoViewIfNeeded_def
      emit_fields split: option.split)

lemma focus_fields:
  "highlightIndex (focusActiveItemIfNeeded h vm) = highlightIndex vm"
  "highlightId (focusActiveItemIfNeeded h vm) = highlightId vm"
  "pending (focusActiveItemIfNeeded h vm) = pending vm"
  by (simp_all add: focusActiveItemIfNeeded_def emit_fields split: option.split)

lemma scroll_calls:
  "e = Call_endOfList \<or> e = Call_beginningOfList \<Longrightarrow>
   calls e (scrollActiveItemIntoViewIfNeeded h vm) = calls e vm"
  by (auto simp add: scrollActiveItemIntoViewIfNeeded_def scrollElementIntoViewIfNeeded_def
      calls_emit split: option.split)

lemma focus_calls:
  "e = Call_endOfList \<or> e = Call_beginningOfList \<Longrightarrow>
   calls e (focusActiveItemIfNeeded h vm) = calls e vm"
  by (auto simp add: focusActiveItemIfNeeded_def calls_emit split: option.split)

lemma onDownKey_index:
  assumes "leaves_highlight (open_body cfg h)"
    and "leaves_highlight (endOfList_body cfg h)"
  shows "highlightIndex (onDownKey cfg h vm) =
     (case highlightIndex vm of
        None \<Rightarrow> None
      | Some i \<Rightarrow>
          Some (if i < js_minus (int (length (role_items cfg h))) 1 then js_plus i 1 else i))"
  by (simp add: onDownKey_def itemsLength_eq Let_def focus_fields scroll_fields
      call_open_frame [OF assms(1)] call_endOfList_frame [OF assms(2)] emit_fields
      setHighlightIndex_index split: option.split)

lemma onDownKey_id:
  assumes "leaves_highlight (open_body cfg h)"
    and "leaves_highlight (endOfList_body cfg h)"
  shows "highlightId (onDownKey cfg h vm) =
     (case highlightIndex vm of
        None \<Rightarrow> highlightId vm
      | Some i \<Rightarrow>
          if i < js_minus (int (length (role_items cfg h))) 1
          then map_option elem_id (item_at (role_items cfg h) (js_plus i 1))
          else highlightId vm)"
  by (simp add: onDownKey_def itemsLength_eq Let_def focus_fields scroll_fields
      call_open_frame [OF assms(1)] call_endOfList_frame [OF assms(2)] emit_fields
      setHighlightIndex_id split: option.split)

lemma onDownKey_calls:
  assumes "leaves_highlight (open_body cfg h)"
    and "leaves_highlight (endOfList_body cfg h)"
  shows "calls Call_endOfList (onDownKey cfg h vm) =
     calls Call_endOfList vm +
     (if truthy (endOfListMethod cfg) \<and>
         (\<forall>i. highlightIndex vm = Some i \<longrightarrow>
              \<not> i < js_minus (int (length (role_items cfg h))) 1)
      then 1 else 0)"
  by (simp add: onDownKey_def itemsLength_eq Let_def focus_calls scroll_calls
      call_open_frame [OF assms(1)] call_endOfList_frame [OF assms(2)] calls_emit
      setHighlightIndex_calls split: option.split)

lemma onDownKey_iter_index:
  assumes "leaves_highlight (open_body cfg h)"
    and "leaves_highlight (endOfList_body cfg h)"
    and "int (length (role_items cfg h)) \<le> 2 ^ 53"
    and "highlightIndex vm = Some (- 1)"
  shows "highlightIndex ((onDownKey cfg h ^^ m) vm) =
           Some (min (int m) (int (length (role_items cfg h))) - 1)"
proof (induction m)
  case 0
  from assms(4) show ?case by simp
next
  case (Suc m)
  let ?N = "int (length (role_items cfg h))"
  let ?i = "min (int m) ?N - 1"
  have step: "js_plus ?i 1 = ?i + 1" if "?i < ?N - 1"
    using that assms(3) by (intro js_unit) auto
  from Suc step show ?case
    by (auto simp add: onDownKey_index [OF assms(1,2)] js_minus_length [OF assms(3)])
qed

lemma onUpKey_index:
  assumes "leaves_highlight (open_body cfg h)"
    and "leaves_highlight (beginningOfList_body cfg h)"
  shows "highlightIndex (onUpKey cfg h vm) =
     (case highlightIndex vm of
        None \<Rightarrow> None
      | Some i \<Rightarrow> Some (if 0 < i then js_minus i 1 else i))"
  by (simp add: onUpKey_def Let_def focus_fields scroll_fields
      call_open_frame [OF assms(1)] call_beginningOfList_frame [OF assms(2)] emit_fields
      setHighlightIndex_index split: option.split)

lemma onUpKey_id:
  assumes "leaves_highlight (open_body cfg h)"
    and "leaves_highlight (beginningOfList_body cfg h)"
  shows "highlightId (onUpKey cfg h vm) =
     (case highlightIndex vm of
        None \<Rightarrow> highlightId vm
      | Some i \<Rightarrow>
          if 0 < i then map_option elem_id (item_at (role_items cfg h) (js_minus i 1))
          else highlightId vm)"
  by (simp add: onUpKey_def Let_def focus_fields scroll_fields
      call_open_frame [OF assms(1)] call_beginningOfList_frame [OF assms(2)] emit_fields
      setHighlightIndex_id split: option.split)

lemma onUpKey_calls:
  assumes "leaves_highlight (open_body cfg h)"
    and "leaves_highlight (beginningOfList_body cfg h)"
  shows "calls Call_beginningOfList (onUpKey cfg h vm) =
     calls Call_beginningOfList vm +
     (if truthy (beginningOfListMethod cfg) \<and> (\<forall>i. highlightIndex vm = Some i \<longrightarrow> \<not> 0 < i)
      then 1 else 0)"
  by (simp add: onUpKey_def Let_def focus_calls scroll_calls
      call_open_frame [OF assms(1)] call_beginningOfList_frame [OF assms(2)] calls_emit
      setHighlightIndex_calls split: option.split)

lemma onUpKey_iter_index:
  assumes "leaves_highlight (open_body cfg h)"
    and "leaves_highlight (beginningOfList_body cfg h)"
    and "k \<le> 2 ^ 53"
    and "highlightIndex vm = Some k"
  shows "highlightIndex ((onUpKey cfg h ^^ m) vm) = Some (if 0 < k then max 0 (k - int m) else k)"
proof (induction m)
  case 0
  from assms(4) show ?case by simp
next
  case (Suc m)
  have step: "js_minus (k - int m) 1 = k - int m - 1" if "0 < k - int m"
    using that assms(3) by (intro js_unit) auto
  from Suc step show ?case
    by (auto simp add: onUpKey_index [OF assms(1,2)])
qed

lemma jump_fields:
  "highlightIndex (jumpToBeginning cfg h vm) = Some 0"
  "highlightId (jumpToBeginning cfg h vm) = map_option elem_id (item_at (role_items cfg h) 0)"
  "highlightIndex (jumpToEnd cfg h vm) = Some (js_minus (int (length (role_items cfg h))) 1)"
  "highlightId (jumpToEnd cfg h vm) =
     map_option elem_id
       (item_at (role_items cfg h) (js_minus (int (length (role_items cfg h))) 1))"
  by (simp_all add: jumpToBeginning_def jumpToEnd_def itemsLength_eq setHighlightIndex_index
      setHighlightIndex_id)

lemma home_end_fields:
  "highlightIndex (onHomeKey cfg h vm) = Some 0"
  "highlightId (onHomeKey cfg h vm) = map_option elem_id (item_at (role_items cfg h) 0)"
  "highlightIndex (onEndKey cfg h vm) = Some (js_minus (int (length (role_items cfg h))) 1)"
  "highlightId (onEndKey cfg h vm) =
     map_option elem_id
       (item_at (role_items cfg h) (js_minus (int (length (role_items cfg h))) 1))"
  by (simp_all add: onHomeKey_def onEndKey_def focus_fields scroll_fields jump_fields)

lemma jumps_pending:
  assumes "role_items cfg h = []"
  shows "pending (jumpToBeginning cfg h vm) = pending vm"
    and "pending (jumpToEnd cfg h vm) = pending vm"
    and "pending (onHomeKey cfg h vm) = pending vm"
    and "pending (onEndKey cfg h vm) = pending vm"
  using assms
  by (simp_all add: jumpToBeginning_def jumpToEnd_def onHomeKey_def onEndKey_def itemsLength_eq
      focus_fields scroll_fields emit_fields setHighlightIndex_pending)

lemma keys_pending:
  assumes "role_items cfg h = []" and "hooks_leave_highlight cfg h"
  shows "pending (onUpKey cfg h vm) = pending vm"
    and "pending (onDownKey cfg h vm) = pending vm"
  using assms(1)
  by (simp_all add: onUpKey_def onDownKey_def itemsLength_eq Let_def focus_fields scroll_fields
      call_open_frame [OF hooks_leave_highlightD(1) [OF assms(2)]]
      call_beginningOfList_frame [OF hooks_leave_highlightD(2) [OF assms(2)]]
      call_endOfList_frame [OF hooks_leave_highlightD(3) [OF assms(2)]]
      emit_fields setHighlightIndex_pending
      split: option.split)

subsection \<open>The invariants\<close>

lemma id_matches_index_fields:
  "highlightIndex vm' = highlightIndex vm \<Longrightarrow> highlightId vm' = highlightId vm \<Longrightarrow>
   id_matches_index cfg h vm' = id_matches_index cfg h vm"
  by (simp add: id_matches_index_def split: option.split)

lemma id_matches_index_resolved:
  "highlightIndex vm = Some n \<Longrightarrow>
   highlightId vm = map_option elem_id (item_at (role_items cfg h) n) \<Longrightarrow>
   id_matches_index cfg h vm"
  by (simp add: id_matches_index_def item_at_def)

lemma id_matches_index_setHighlightId:
  assumes "classify_hash i = Id_selector"
  shows "id_matches_index cfg h (snd (setHighlightId cfg h i vm))"
proof (cases "getListElement h")
  case None
  then show ?thesis
    by (simp add: id_matches_index_def setHighlightId_index getItemIndex_None)
next
  case (Some d)
  let ?items = "querySelectorAll_role (listItemRole cfg) d"
  let ?k = "indexOf ?items (first_with_id i d)"
  have index: "highlightIndex (snd (setHighlightId cfg h i vm)) = Some ?k"
    by (simp add: setHighlightId_index getItemIndex_Id_selector [OF Some assms])
  have "elem_id (role_items cfg h ! nat ?k) = i" if "0 \<le> ?k" "?k < int (length (role_items cfg h))"
  proof -
    from indexOf_found [OF that(1)] obtain n
      where n: "first_with_id i d = Some n" "nat ?k < length ?items" "?items ! nat ?k = n"
      by blast
    from first_with_id_Some [OF n(1)] have "elem_id (d ! n) = i"
      by simp
    with n show ?thesis
      by (simp add: role_items_def Some)
  qed
  with index show ?thesis
    by (simp add: id_matches_index_def setHighlightId_id)
qed

lemma index_in_list_fields:
  "highlightIndex vm' = highlightIndex vm \<Longrightarrow> highlightId vm' = highlightId vm \<Longrightarrow>
   index_in_list cfg h vm' = index_in_list cfg h vm"
  by (simp add: index_in_list_def)

lemma onDownKey_preserves:
  assumes fields: "\<And>vm vm'. highlightIndex vm' = highlightIndex vm \<Longrightarrow>
      highlightId vm' = highlightId vm \<Longrightarrow> P vm' = P vm"
    and hooks: "list_all (preserves P) (hook_bodies cfg h)"
    and step: "\<And>i vm vm'. P vm \<Longrightarrow> highlightIndex vm = Some i \<Longrightarrow>
      i < js_minus (int (length (role_items cfg h))) 1 \<Longrightarrow>
      P (snd (setHighlightIndex cfg h (js_plus i 1) vm'))"
    and P: "P vm"
  shows "P (onDownKey cfg h vm)"
proof -
  let ?vm1 = "call_open cfg h vm"
  let ?vm2 = "snd (itemsLength cfg h ?vm1)"
  define vm3 where "vm3 =
    (case highlightIndex ?vm1 of
       None \<Rightarrow> call_endOfList cfg h ?vm2
     | Some i \<Rightarrow>
         if i < js_minus (int (length (role_items cfg h))) 1
         then snd (setHighlightIndex cfg h (js_plus i 1) ?vm2)
         else call_endOfList cfg h ?vm2)"
  have 1: "P ?vm1"
    by (rule hooks_preserve(1) [OF fields hooks P])
  have "P ?vm2 = P ?vm1"
    by (rule fields) (simp_all add: itemsLength_eq emit_fields)
  with 1 have 2: "P ?vm2"
    by simp
  have ended: "P (call_endOfList cfg h ?vm2)"
    by (rule hooks_preserve(3) [OF fields hooks 2])
  have 3: "P vm3"
  proof (cases "highlightIndex ?vm1")
    case None
    with ended show ?thesis by (simp add: vm3_def)
  next
    case (Some i)
    with ended step [OF 1 Some] show ?thesis by (simp add: vm3_def)
  qed
  have "onDownKey cfg h vm =
      focusActiveItemIfNeeded h (scrollActiveItemIntoViewIfNeeded h vm3)"
    by (simp add: onDownKey_def vm3_def Let_def case_prod_beta itemsLength_fst
        split: option.split)
  moreover have "P (focusActiveItemIfNeeded h (scrollActiveItemIntoViewIfNeeded h vm3)) = P vm3"
    by (rule fields) (simp_all add: focus_fields scroll_fields)
  ultimately show ?thesis
    using 3 by simp
qed

lemma onUpKey_preserves:
  assumes fields: "\<And>vm vm'. highlightIndex vm' = highlightIndex vm \<Longrightarrow>
      highlightId vm' = highlightId vm \<Longrightarrow> P vm' = P vm"
    and hooks: "list_all (preserves P) (hook_bodies cfg h)"
    and step: "\<And>i vm vm'. P vm \<Longrightarrow> highlightIndex vm = Some i \<Longrightarrow> 0 < i \<Longrightarrow>
      P (snd (setHighlightIndex cfg h (js_minus i 1) vm'))"
    and P: "P vm"
  shows "P (onUpKey cfg h vm)"
proof -
  let ?vm1 = "call_open cfg h vm"
  define vm2 where "vm2 =
    (case highlightIndex ?vm1 of
       None \<Rightarrow> call_beginningOfList cfg h ?vm1
     | Some i \<Rightarrow>
         if 0 < i then snd (setHighlightIndex cfg h (js_minus i 1) ?vm1)
         else call_beginningOfList cfg h ?vm1)"
  have 1: "P ?vm1"
    by (rule hooks_preserve(1) [OF fields hooks P])
  have began: "P (call_beginningOfList cfg h ?vm1)"
    by (rule hooks_preserve(2) [OF fields hooks 1])
  have 2: "P vm2"
  proof (cases "highlightIndex ?vm1")
    case None
    with began show ?thesis by (simp add: vm2_def)
  next
    case (Some i)
    with began step [OF 1 Some] show ?thesis by (simp add: vm2_def)
  qed
  have "onUpKey cfg h vm = focusActiveItemIfNeeded h (scrollActiveItemIntoViewIfNeeded h vm2)"
    by (simp add: onUpKey_def vm2_def Let_def)
  moreover have "P (focusActiveItemIfNeeded h (scrollActiveItemIntoViewIfNeeded h vm2)) = P vm2"
    by (rule fields) (simp_all add: focus_fields scroll_fields)
  ultimately show ?thesis
    using 2 by simp
qed

lemma id_matches_index_stored: "id_matches_index cfg h (snd (setHighlightIndex cfg h n vm))"
  by (rule id_matches_index_resolved) (simp_all add: setHighlightIndex_index setHighlightIndex_id)

lemma id_matches_index_perform:
  assumes hooks: "list_all (preserves (id_matches_index cfg h)) (hook_bodies cfg h)"
    and op: "ascii_identifier op"
    and inv: "id_matches_index cfg h vm"
  shows "id_matches_index cfg h (perform cfg h op vm)"
proof (cases op)
  case OnUpKey
  have "id_matches_index cfg h (onUpKey cfg h vm)"
    by (rule onUpKey_preserves [OF id_matches_index_fields hooks id_matches_index_stored inv])
  with OnUpKey show ?thesis by simp
next
  case OnDownKey
  have "id_matches_index cfg h (onDownKey cfg h vm)"
    by (rule onDownKey_preserves [OF id_matches_index_fields hooks id_matches_index_stored inv])
  with OnDownKey show ?thesis by simp
next
  case OnHomeKey
  have "id_matches_index cfg h (onHomeKey cfg h vm)"
    by (rule id_matches_index_resolved) (simp_all add: home_end_fields)
  with OnHomeKey show ?thesis by simp
next
  case OnEndKey
  have "id_matches_index cfg h (onEndKey cfg h vm)"
    by (rule id_matches_index_resolved) (simp_all add: home_end_fields)
  with OnEndKey show ?thesis by simp
next
  case JumpToBeginning
  have "id_matches_index cfg h (jumpToBeginning cfg h vm)"
    by (rule id_matches_index_resolved) (simp_all add: jump_fields)
  with JumpToBeginning show ?thesis by simp
next
  case JumpToEnd
  have "id_matches_index cfg h (jumpToEnd cfg h vm)"
    by (rule id_matches_index_resolved) (simp_all add: jump_fields)
  with JumpToEnd show ?thesis by simp
next
  case (SetHighlightIndex num)
  then show ?thesis by (simp add: id_matches_index_stored)
next
  case (SetHighlightId i)
  with op show ?thesis by (simp add: id_matches_index_setHighlightId)
next
  case NextTick
  with inv show ?thesis
    by (simp add: id_matches_index_fields [of "nextTick cfg h vm" vm] nextTick_fields)
qed

lemma id_matches_index_foldl:
  assumes "list_all (preserves (id_matches_index cfg h)) (hook_bodies cfg h)"
  shows "list_all ascii_identifier ops \<Longrightarrow> id_matches_index cfg h vm \<Longrightarrow>
   id_matches_index cfg h (foldl (\<lambda>vm op. perform cfg h op vm) vm ops)"
  by (induction ops arbitrary: vm) (simp_all add: id_matches_index_perform [OF assms])

lemma index_in_list_stored:
  "n = - 1 \<or> (0 \<le> n \<and> n < int (length (role_items cfg h))) \<Longrightarrow>
   index_in_list cfg h (snd (setHighlightIndex cfg h n vm))"
  by (simp add: index_in_list_def setHighlightIndex_index)

lemma index_in_list_setHighlightId:
  assumes "role_items cfg h \<noteq> []" and "classify_hash i = Id_selector"
  shows "index_in_list cfg h (snd (setHighlightId cfg h i vm))"
proof (cases "getListElement h")
  case None
  with assms(1) show ?thesis by (simp add: role_items_None)
next
  case (Some d)
  let ?items = "querySelectorAll_role (listItemRole cfg) d"
  have index: "highlightIndex (snd (setHighlightId cfg h i vm)) =
      Some (indexOf ?items (first_with_id i d))"
    by (simp add: setHighlightId_index getItemIndex_Id_selector [OF Some assms(2)])
  have "indexOf ?items x = - 1 \<or> (0 \<le> indexOf ?items x \<and> indexOf ?items x < int (length ?items))"
    for x
  proof (cases x)
    case None
    then show ?thesis by (simp add: indexOf_def)
  next
    case (Some n)
    with indexOf_from_range [of 0 ?items n] show ?thesis
      by (auto simp add: indexOf_def)
  qed
  with index show ?thesis
    by (simp add: index_in_list_def role_items_def Some)
qed

lemma index_in_list_perform:
  assumes items: "role_items cfg h \<noteq> []"
    and bound: "int (length (role_items cfg h)) \<le> 2 ^ 53"
    and hooks: "list_all (preserves (index_in_list cfg h)) (hook_bodies cfg h)"
    and op: "ascii_identifier op" "position_or_idle cfg h op"
    and inv: "index_in_list cfg h vm"
  shows "index_in_list cfg h (perform cfg h op vm)"
proof -
  let ?N = "int (length (role_items cfg h))"
  from items have positive: "0 < ?N"
    by simp
  have last: "js_minus ?N 1 = ?N - 1"
    by (rule js_minus_length [OF bound])
  have down: "index_in_list cfg h (snd (setHighlightIndex cfg h (js_plus i 1) vm'))"
    if "index_in_list cfg h vm0" "highlightIndex vm0 = Some i" "i < js_minus ?N 1" for i vm0 vm'
  proof -
    from that last have range: "- 1 \<le> i" "i < ?N - 1"
      by (auto simp add: index_in_list_def)
    with bound have "js_plus i 1 = i + 1"
      by (intro js_unit) auto
    with range show ?thesis
      by (intro index_in_list_stored) auto
  qed
  have up: "index_in_list cfg h (snd (setHighlightIndex cfg h (js_minus i 1) vm'))"
    if "index_in_list cfg h vm0" "highlightIndex vm0 = Some i" "0 < i" for i vm0 vm'
  proof -
    from that have range: "0 < i" "i < ?N"
      by (auto simp add: index_in_list_def)
    with bound have "js_minus i 1 = i - 1"
      by (intro js_unit) auto
    with range show ?thesis
      by (intro index_in_list_stored) auto
  qed
  show ?thesis
  proof (cases op)
    case OnUpKey
    have "index_in_list cfg h (onUpKey cfg h vm)"
      by (rule onUpKey_preserves [OF index_in_list_fields hooks up inv])
    with OnUpKey show ?thesis by simp
  next
    case OnDownKey
    have "index_in_list cfg h (onDownKey cfg h vm)"
      by (rule onDownKey_preserves [OF index_in_list_fields hooks down inv])
    with OnDownKey show ?thesis by simp
  next
    case OnHomeKey
    with positive show ?thesis by (simp add: index_in_list_def home_end_fields)
  next
    case OnEndKey
    with positive last show ?thesis by (simp add: index_in_list_def home_end_fields)
  next
    case JumpToBeginning
    with positive show ?thesis by (simp add: index_in_list_def jump_fields)
  next
    case JumpToEnd
    with positive last show ?thesis by (simp add: index_in_list_def jump_fields)
  next
    case (SetHighlightIndex num)
    with op(2) show ?thesis by (simp add: index_in_list_stored)
  next
    case (SetHighlightId i)
    with op(1) items show ?thesis by (simp add: index_in_list_setHighlightId)
  next
    case NextTick
    with inv show ?thesis
      by (simp add: index_in_list_fields [of "nextTick cfg h vm" vm] nextTick_fields)
  qed
qed

lemma index_in_list_foldl:
  assumes "role_items cfg h \<noteq> []"
    and "int (length (role_items cfg h)) \<le> 2 ^ 53"
    and "list_all (preserves (index_in_list cfg h)) (hook_bodies cfg h)"
  shows "list_all ascii_identifier ops \<Longrightarrow> list_all (position_or_idle cfg h) ops \<Longrightarrow>
   index_in_list cfg h vm \<Longrightarrow>
   index_in_list cfg h (foldl (\<lambda>vm op. perform cfg h op vm) vm ops)"
  by (induction ops arbitrary: vm) (simp_all add: index_in_list_perform [OF assms])

lemma index_in_list_highlighted:
  "index_in_list cfg h vm \<Longrightarrow> (highlightIndex vm = Some (- 1)) = (\<not> highlighted cfg h vm)"
  by (auto simp add: index_in_list_def highlighted_def split: option.splits)

lemma run_simps:
  "run cfg h [] = data cfg"
  "run cfg h (ops @ [op]) = perform cfg h op (run cfg h ops)"
  by (simp_all add: run_def)

subsection \<open>The example hosts, evaluated\<close>

lemma example_roles:
  "listItemRole default_config = ''option''" "listItemRole hooked_config = ''option''"
  by (simp_all add: default_config_def hooked_config_def)

lemma example_lists:
  "getListElement abc_host = Some [li ''a'', li ''b'', li ''c'']"
  "getListElement empty_host = Some []"
  "getListElement twice_host = Some [li ''a'', li ''a'']"
  "getListElement numeric_host = Some [li ''1'']"
  "getListElement no_list_host = None"
  by (simp_all add: getListElement_def abc_host_def empty_host_def twice_host_def numeric_host_def
      no_list_host_def host_of_def)

lemma example_queries:
  "querySelectorAll_role ''option'' [li ''a'', li ''b'', li ''c''] = [0, 1, 2]"
  "querySelectorAll_role ''option'' [] = []"
  "querySelectorAll_role ''option'' [li ''a'', li ''a''] = [0, 1]"
  "querySelectorAll_role ''option'' [li ''1''] = [0]"
  by (simp_all add: querySelectorAll_role_def li_def upt_rec)

lemma example_items:
  "listItemRole cfg = ''option'' \<Longrightarrow> role_items cfg abc_host = [li ''a'', li ''b'', li ''c'']"
  "listItemRole cfg = ''option'' \<Longrightarrow> role_items cfg empty_host = []"
  "listItemRole cfg = ''option'' \<Longrightarrow> role_items cfg twice_host = [li ''a'', li ''a'']"
  "listItemRole cfg = ''option'' \<Longrightarrow> role_items cfg numeric_host = [li ''1'']"
  "role_items cfg no_list_host = []"
  by (simp_all add: role_items_def example_lists example_queries)

lemma example_hooks:
  "truthy (openMethod hooked_config)" "truthy (afterHighlightMethod hooked_config)"
  "truthy (beginningOfListMethod hooked_config)" "truthy (endOfListMethod hooked_config)"
  "\<not> truthy (afterHighlightMethod default_config)"
  by (simp_all add: truthy_def hooked_config_def default_config_def)

lemma example_absent: "listRef no_list_host = No_ref"
  by (simp add: no_list_host_def host_of_def)

lemma example_activeItem:
  "activeItem no_list_host vm = None" "activeItem empty_host vm = None"
  "activeItem abc_host vm = None"
  by (simp_all add: no_list_host_def empty_host_def abc_host_def host_of_def)

lemma example_selectors:
  "classify_hash ''a'' = Id_selector" "classify_hash ''b'' = Id_selector"
  "classify_hash ''1'' = Invalid_selector"
  by (simp_all add: classify_hash.simps is_name_char_def is_ident_start_def is_letter_def is_digit_def)

lemma example_first_with_id:
  "first_with_id ''a'' [li ''a'', li ''a''] = Some 0"
  "first_with_id ''b'' [li ''a'', li ''b'', li ''c''] = Some 1"
  "first_with_id ''a'' [li ''a'', li ''b'', li ''c''] = Some 0"
  by (simp_all add: first_with_id_def li_def upt_rec)

lemma example_methods: "call_method (host_of r) m a = id"
  by (auto simp add: call_method_def host_of_def split: option.split)

lemma example_bodies:
  "open_body cfg (host_of r) = id" "beginningOfList_body cfg (host_of r) = id"
  "endOfList_body cfg (host_of r) = id"
  by (simp_all add: open_body_def beginningOfList_body_def endOfList_body_def example_methods)

lemma example_frame: "hooks_leave_highlight cfg (host_of r)"
  by (simp add: hooks_leave_highlight_def hook_bodies_def example_bodies leaves_highlight_def)

lemma example_frames:
  "hooks_leave_highlight cfg abc_host" "hooks_leave_highlight cfg empty_host"
  "hooks_leave_highlight cfg no_list_host"
  by (simp_all add: abc_host_def empty_host_def no_list_host_def example_frame)

lemma abc_host_leaves:
  "leaves_highlight (open_body cfg abc_host)"
  "leaves_highlight (beginningOfList_body cfg abc_host)"
  "leaves_highlight (endOfList_body cfg abc_host)"
  by (rule hooks_leave_highlightD [OF example_frames(1)])+

lemma empty_host_leaves:
  "leaves_highlight (open_body cfg empty_host)"
  "leaves_highlight (beginningOfList_body cfg empty_host)"
  "leaves_highlight (endOfList_body cfg empty_host)"
  by (rule hooks_leave_highlightD [OF example_frames(2)])+

lemma example_preserves: "list_all (preserves P) (hook_bodies cfg abc_host)"
  by (simp add: hook_bodies_def abc_host_def example_bodies preserves_def)

lemma wrap_config_fields:
  "listItemRole wrap_config = ''option''" "\<not> truthy (openMethod wrap_config)"
  "\<not> truthy (afterHighlightMethod wrap_config)"
  "truthy (beginningOfListMethod wrap_config)" "truthy (endOfListMethod wrap_config)"
  by (simp_all add: wrap_config_def default_config_def truthy_def)

lemma wrap_host_list:
  "getListElement (wrap_host r) = getListElement (host_of r)"
  "role_items cfg (wrap_host r) = role_items cfg (host_of r)"
  "activeItem (wrap_host r) vm = None"
  by (simp_all add: wrap_host_def getListElement_def role_items_def host_of_def)

lemma wrap_config_names:
  "openMethod wrap_config = None" "beginningOfListMethod wrap_config = Some ''jumpToEnd''"
  "endOfListMethod wrap_config = Some ''jumpToBeginning''"
  by (simp_all add: wrap_config_def default_config_def)

lemma wrap_host_method: "methods (wrap_host r) = own_method wrap_config (host_of r)"
  by (simp add: wrap_host_def)

lemma wrap_host_hooks:
  "call_endOfList wrap_config (wrap_host r) vm =
     jumpToBeginning wrap_config (host_of r) (emit Call_endOfList vm)"
  "call_beginningOfList wrap_config (wrap_host r) vm =
     jumpToEnd wrap_config (host_of r) (emit Call_beginningOfList vm)"
  "call_open wrap_config (wrap_host r) vm = vm"
  by (simp_all add: call_endOfList_def call_beginningOfList_def call_open_def wrap_config_fields
      wrap_config_names truthy_def call_method_def wrap_host_method own_method_def)

lemma wrap_onDownKey_index:
  "highlightIndex (onDownKey wrap_config (wrap_host r) vm) =
     (case highlightIndex vm of
        None \<Rightarrow> Some 0
      | Some i \<Rightarrow>
          Some (if i < js_minus (int (length (role_items wrap_config (host_of r)))) 1
                then js_plus i 1 else 0))"
  by (simp add: onDownKey_def itemsLength_eq Let_def focus_fields scroll_fields wrap_host_hooks
      wrap_host_list jump_fields emit_fields setHighlightIndex_index split: option.split)

lemma wrap_onUpKey_index:
  "highlightIndex (onUpKey wrap_config (wrap_host r) vm) =
     (case highlightIndex vm of
        None \<Rightarrow> Some (js_minus (int (length (role_items wrap_config (host_of r)))) 1)
      | Some i \<Rightarrow>
          Some (if 0 < i then js_minus i 1
                else js_minus (int (length (role_items wrap_config (host_of r)))) 1))"
  by (simp add: onUpKey_def Let_def focus_fields scroll_fields wrap_host_hooks
      wrap_host_list jump_fields emit_fields setHighlightIndex_index split: option.split)

lemma wrap_items:
  "role_items wrap_config (host_of (Element_ref [li ''a'', li ''b'', li ''c''])) =
     [li ''a'', li ''b'', li ''c'']"
  "role_items wrap_config (host_of (Element_ref [])) = []"
  "role_items wrap_config (host_of No_ref) = []"
  using example_items(1,2,5) [of wrap_config]
  by (simp_all add: wrap_config_fields abc_host_def empty_host_def no_list_host_def)

lemma js_small:
  "js_plus (- 1) 1 = 0" "js_plus 0 1 = 1" "js_plus 1 1 = 2"
  "js_minus 0 1 = - 1" "js_minus 3 1 = 2" "js_minus 2 1 = 1" "js_minus 1 1 = 0"
  by (simp_all add: js_plus_def js_minus_def js_number_def)

lemma wrap_host_bodies:
  "hook_bodies wrap_config (wrap_host r) =
     [id, jumpToEnd wrap_config (host_of r), jumpToBeginning wrap_config (host_of r)]"
  by (simp add: hook_bodies_def open_body_def beginningOfList_body_def endOfList_body_def
      wrap_config_names truthy_def call_method_def wrap_host_method own_method_def fun_eq_iff)

lemma wrap_host_invariants:
  "id_matches_index cfg (wrap_host r) = id_matches_index cfg (host_of r)"
  "index_in_list cfg (wrap_host r) = index_in_list cfg (host_of r)"
  "highlighted cfg (wrap_host r) = highlighted cfg (host_of r)"
  by (simp_all add: fun_eq_iff id_matches_index_def index_in_list_def highlighted_def
      wrap_host_list cong: option.case_cong)

lemma wrap_host_preserves:
  "list_all (preserves (id_matches_index wrap_config (wrap_host r)))
     (hook_bodies wrap_config (wrap_host r))"
  "list_all (preserves (index_in_list wrap_config (wrap_host (Element_ref [li ''a'', li ''b'', li ''c'']))))
     (hook_bodies wrap_config (wrap_host (Element_ref [li ''a'', li ''b'', li ''c''])))"
  by (simp_all add: wrap_host_bodies wrap_host_invariants preserves_def jumpToBeginning_def
      jumpToEnd_def case_prod_beta id_matches_index_stored index_in_list_stored itemsLength_fst
      wrap_items js_small)

section \<open>The properties\<close>

subsection \<open>C1: navigation when the list accessor returns nothing\<close>

text \<open>
  C1, as amended. When the host's list accessor returns nothing, no navigation operation
  throws or rejects (the key handlers reach no call that can throw, and the promises of
  the two setters are fulfilled), the item count is 0 and taking it logs the
  diagnostic, and the setters, the jumps, \<^verbatim>\<open>onHomeKey\<close> and \<^verbatim>\<open>onEndKey\<close> suspend nothing
  for the after-highlight hook. Where the methods configured as open hook and boundary
  hooks leave the highlight alone, \<^verbatim>\<open>onUpKey\<close> and \<^verbatim>\<open>onDownKey\<close> suspend nothing either,
  and \<^verbatim>\<open>onUpKey\<close> from an index that is at most 0 or \<^verbatim>\<open>undefined\<close>, and \<^verbatim>\<open>onDownKey\<close>
  from an index that is at least \<open>-1\<close> or \<^verbatim>\<open>undefined\<close>, leave the stored index and id as
  they are. The setters do write: \<^verbatim>\<open>setHighlightIndex(n)\<close> stores the index \<open>n\<close> and the id
  \<^verbatim>\<open>undefined\<close>, so \<^verbatim>\<open>jumpToBeginning\<close> and \<^verbatim>\<open>onHomeKey\<close> store 0, \<^verbatim>\<open>jumpToEnd\<close> and
  \<^verbatim>\<open>onEndKey\<close> store \<open>-1\<close>, each with the id \<^verbatim>\<open>undefined\<close>; \<^verbatim>\<open>setHighlightId(id)\<close> stores
  the id and the index \<^verbatim>\<open>undefined\<close>.
\<close>

theorem absent_list_navigation:
  assumes "listRef h = No_ref"
  shows "fst (itemsLength cfg h vm) = 0 \<and>
         trace (snd (itemsLength cfg h vm)) = trace vm @ [Console_error] \<and>
         setHighlightIndex cfg h n vm =
           (Fulfilled,
            vm\<lparr>highlightIndex := Some n, highlightId := None,
               trace := trace vm @ [Write_index (Some n), Write_id None, Console_error]\<rparr>) \<and>
         setHighlightId cfg h i vm =
           (Fulfilled,
            vm\<lparr>highlightIndex := None, highlightId := Some i,
               trace := trace vm @ [Write_id (Some i), Write_index None, Console_error]\<rparr>) \<and>
         highlightIndex (jumpToBeginning cfg h vm) = Some 0 \<and>
         highlightId (jumpToBeginning cfg h vm) = None \<and>
         highlightIndex (onHomeKey cfg h vm) = Some 0 \<and>
         highlightId (onHomeKey cfg h vm) = None \<and>
         highlightIndex (jumpToEnd cfg h vm) = Some (- 1) \<and>
         highlightId (jumpToEnd cfg h vm) = None \<and>
         highlightIndex (onEndKey cfg h vm) = Some (- 1) \<and>
         highlightId (onEndKey cfg h vm) = None \<and>
         pending (onHomeKey cfg h vm) = pending vm \<and>
         pending (onEndKey cfg h vm) = pending vm \<and>
         pending (jumpToBeginning cfg h vm) = pending vm \<and>
         pending (jumpToEnd cfg h vm) = pending vm \<and>
         (hooks_leave_highlight cfg h \<longrightarrow>
            pending (onUpKey cfg h vm) = pending vm \<and>
            pending (onDownKey cfg h vm) = pending vm \<and>
            ((\<forall>k. highlightIndex vm = Some k \<longrightarrow> k \<le> 0) \<longrightarrow>
               highlightIndex (onUpKey cfg h vm) = highlightIndex vm \<and>
               highlightId (onUpKey cfg h vm) = highlightId vm) \<and>
            ((\<forall>k. highlightIndex vm = Some k \<longrightarrow> - 1 \<le> k) \<longrightarrow>
               highlightIndex (onDownKey cfg h vm) = highlightIndex vm \<and>
               highlightId (onDownKey cfg h vm) = highlightId vm))"
proof -
  have absent: "getListElement h = None"
    by (rule getListElement_No_ref [OF assms])
  then have none: "role_items cfg h = []"
    by (rule role_items_None)
  have last: "js_minus (int (length (role_items cfg h))) 1 = - 1"
    by (simp add: none js_small)
  have count: "fst (itemsLength cfg h vm) = 0 \<and>
      trace (snd (itemsLength cfg h vm)) = trace vm @ [Console_error]"
    by (simp add: itemsLength_eq none absent emit_fields)
  have by_index: "setHighlightIndex cfg h n vm =
      (Fulfilled,
       vm\<lparr>highlightIndex := Some n, highlightId := None,
          trace := trace vm @ [Write_index (Some n), Write_id None, Console_error]\<rparr>)"
    by (simp add: setHighlightIndex_eq none absent diagnostic_def item_at_Nil)
  have by_id: "setHighlightId cfg h i vm =
      (Fulfilled,
       vm\<lparr>highlightIndex := None, highlightId := Some i,
          trace := trace vm @ [Write_id (Some i), Write_index None, Console_error]\<rparr>)"
    by (simp add: setHighlightId_eq getItemIndex_None [OF absent] await_afterHighlight_empty [OF none]
        diagnostic_def absent set_index_def set_id_def emit_def)
  have jumps: "highlightIndex (jumpToBeginning cfg h vm) = Some 0 \<and>
      highlightId (jumpToBeginning cfg h vm) = None \<and>
      highlightIndex (onHomeKey cfg h vm) = Some 0 \<and>
      highlightId (onHomeKey cfg h vm) = None \<and>
      highlightIndex (jumpToEnd cfg h vm) = Some (- 1) \<and>
      highlightId (jumpToEnd cfg h vm) = None \<and>
      highlightIndex (onEndKey cfg h vm) = Some (- 1) \<and>
      highlightId (onEndKey cfg h vm) = None"
    by (simp add: jump_fields home_end_fields last) (simp add: none item_at_Nil)
  have keys: "pending (onUpKey cfg h vm) = pending vm \<and>
      pending (onDownKey cfg h vm) = pending vm \<and>
      ((\<forall>k. highlightIndex vm = Some k \<longrightarrow> k \<le> 0) \<longrightarrow>
         highlightIndex (onUpKey cfg h vm) = highlightIndex vm \<and>
         highlightId (onUpKey cfg h vm) = highlightId vm) \<and>
      ((\<forall>k. highlightIndex vm = Some k \<longrightarrow> - 1 \<le> k) \<longrightarrow>
         highlightIndex (onDownKey cfg h vm) = highlightIndex vm \<and>
         highlightId (onDownKey cfg h vm) = highlightId vm)"
    if frame: "hooks_leave_highlight cfg h"
    by (auto simp add: keys_pending [OF none frame]
        onUpKey_index [OF hooks_leave_highlightD(1,2) [OF frame]]
        onUpKey_id [OF hooks_leave_highlightD(1,2) [OF frame]]
        onDownKey_index [OF hooks_leave_highlightD(1,3) [OF frame]]
        onDownKey_id [OF hooks_leave_highlightD(1,3) [OF frame]] last split: option.split)
  from count by_index by_id jumps jumps_pending [OF none] keys show ?thesis
    by blast
qed

text \<open>
  C1, an instance: the host without a list, all hooks configured with methods that
  leave the component as it is, the component as \<^verbatim>\<open>data ()\<close> returns it.
\<close>

theorem absent_list_navigation_witness:
  "listRef no_list_host = No_ref \<and>
   hooks_leave_highlight hooked_config no_list_host \<and>
   fst (itemsLength hooked_config no_list_host (data hooked_config)) = 0 \<and>
   fst (setHighlightIndex hooked_config no_list_host 3 (data hooked_config)) = Fulfilled \<and>
   fst (setHighlightId hooked_config no_list_host ''a'' (data hooked_config)) = Fulfilled \<and>
   highlightIndex (data hooked_config) = Some (- 1) \<and>
   highlightIndex (onUpKey hooked_config no_list_host (data hooked_config)) = Some (- 1) \<and>
   highlightId (onUpKey hooked_config no_list_host (data hooked_config)) = Some [] \<and>
   highlightIndex (onDownKey hooked_config no_list_host (data hooked_config)) = Some (- 1) \<and>
   highlightId (onDownKey hooked_config no_list_host (data hooked_config)) = Some [] \<and>
   pending (onDownKey hooked_config no_list_host (data hooked_config)) = []"
  using absent_list_navigation [where h = no_list_host and cfg = hooked_config
      and vm = "data hooked_config" and n = 3 and i = "''a''"]
  by (simp add: example_absent example_frames data_fields)

text \<open>
  C1 as stated fails: on the host without a list \<^verbatim>\<open>onHomeKey\<close> takes the index from
  \<open>-1\<close> to 0 and the id from the empty string to \<^verbatim>\<open>undefined\<close>, \<^verbatim>\<open>setHighlightIndex\<close>
  and \<^verbatim>\<open>setHighlightId\<close> overwrite the id and the index, and \<^verbatim>\<open>onDownKey\<close> calls the open
  hook and the end-of-list hook besides logging.
\<close>

theorem absent_list_unchanged_counterexample:
  "listRef no_list_host = No_ref \<and>
   highlightIndex (data hooked_config) = Some (- 1) \<and>
   highlightId (data hooked_config) = Some [] \<and>
   highlightIndex (onHomeKey hooked_config no_list_host (data hooked_config)) = Some 0 \<and>
   highlightId (onHomeKey hooked_config no_list_host (data hooked_config)) = None \<and>
   highlightId (snd (setHighlightIndex hooked_config no_list_host (- 1) (data hooked_config))) = None \<and>
   highlightIndex (snd (setHighlightId hooked_config no_list_host ''a'' (data hooked_config))) = None \<and>
   trace (onDownKey hooked_config no_list_host (data hooked_config)) =
     [Call_open, Console_error, Call_endOfList]"
proof -
  have "trace (onDownKey hooked_config no_list_host (data hooked_config)) =
      [Call_open, Console_error, Call_endOfList]"
    by (simp add: onDownKey_def call_open_def call_endOfList_def example_hooks itemsLength_eq
        example_lists example_items emit_fields data_fields focusActiveItemIfNeeded_def
        scrollActiveItemIntoViewIfNeeded_def example_activeItem Let_def js_small
        no_list_host_def [THEN arg_cong, of "\<lambda>h. call_method h m a" for m a]
        example_methods)
  then show ?thesis
    by (simp add: example_absent data_fields home_end_fields example_items item_at_Nil
        setHighlightIndex_id setHighlightId_index getItemIndex_None [OF example_lists(5)])
qed

subsection \<open>C2: \<^verbatim>\<open>onDownKey\<close> saturates at the last item\<close>

text \<open>
  C2, as amended. On a host list with \<open>N\<close> role-matched items (at most \<open>2^53\<close>, where
  JavaScript still counts in steps of one), with methods for the open hook and the
  end-of-list hook that leave the highlight alone, \<open>m\<close> calls of \<^verbatim>\<open>onDownKey\<close> from the
  index \<open>-1\<close> leave the index at \<open>min m N - 1\<close>: it goes up by one with each call
  until it is \<open>N - 1\<close> and stays there. When the end-of-list hook is configured, the
  call that follows the first \<open>m\<close> calls invokes it exactly once if the index is
  \<open>N - 1\<close> by then (that is, \<open>N \<le> m\<close>), and not at all before.
\<close>

theorem onDownKey_saturates:
  assumes "highlightIndex vm = Some (- 1)"
    and "leaves_highlight (open_body cfg h)"
    and "leaves_highlight (endOfList_body cfg h)"
    and "int (length (role_items cfg h)) \<le> 2 ^ 53"
  shows "highlightIndex ((onDownKey cfg h ^^ m) vm) =
           Some (min (int m) (int (length (role_items cfg h))) - 1) \<and>
         (truthy (endOfListMethod cfg) \<longrightarrow>
            calls Call_endOfList ((onDownKey cfg h ^^ Suc m) vm) =
              calls Call_endOfList ((onDownKey cfg h ^^ m) vm) +
              (if length (role_items cfg h) \<le> m then 1 else 0))"
  using onDownKey_iter_index [OF assms(2,3,4,1), of m]
  by (auto simp add: onDownKey_calls [OF assms(2,3)] js_minus_length [OF assms(4)])

text \<open>
  C2, the scenario of the list \<^verbatim>\<open>a\<close>, \<^verbatim>\<open>b\<close>, \<^verbatim>\<open>c\<close> with hook methods that leave the
  component as it is: one call gives index 0, three calls give index 2, the fourth
  leaves it at 2 and calls the end-of-list hook once.
\<close>

theorem onDownKey_saturates_witness:
  "highlightIndex (data hooked_config) = Some (- 1) \<and> truthy (endOfListMethod hooked_config) \<and>
   leaves_highlight (open_body hooked_config abc_host) \<and>
   leaves_highlight (endOfList_body hooked_config abc_host) \<and>
   int (length (role_items hooked_config abc_host)) \<le> 2 ^ 53 \<and>
   highlightIndex ((onDownKey hooked_config abc_host ^^ 1) (data hooked_config)) = Some 0 \<and>
   highlightIndex ((onDownKey hooked_config abc_host ^^ 3) (data hooked_config)) = Some 2 \<and>
   highlightIndex ((onDownKey hooked_config abc_host ^^ 4) (data hooked_config)) = Some 2 \<and>
   calls Call_endOfList ((onDownKey hooked_config abc_host ^^ 3) (data hooked_config)) =
     calls Call_endOfList ((onDownKey hooked_config abc_host ^^ 2) (data hooked_config)) \<and>
   calls Call_endOfList ((onDownKey hooked_config abc_host ^^ 4) (data hooked_config)) =
     calls Call_endOfList ((onDownKey hooked_config abc_host ^^ 3) (data hooked_config)) + 1"
  using onDownKey_saturates [where vm = "data hooked_config" and cfg = hooked_config and h = abc_host and m = 1]
    onDownKey_saturates [where vm = "data hooked_config" and cfg = hooked_config and h = abc_host and m = 2]
    onDownKey_saturates [where vm = "data hooked_config" and cfg = hooked_config and h = abc_host and m = 3]
    onDownKey_saturates [where vm = "data hooked_config" and cfg = hooked_config and h = abc_host and m = 4]
  by (simp add: example_items example_roles example_hooks abc_host_leaves data_fields
      del: funpow.simps)

text \<open>
  C2 as stated fails where the end-of-list hook is a method that writes the index. With
  \<^verbatim>\<open>endOfListMethod: 'jumpToBeginning'\<close> on the list \<^verbatim>\<open>a\<close>, \<^verbatim>\<open>b\<close>, \<^verbatim>\<open>c\<close>, three calls of
  \<^verbatim>\<open>onDownKey\<close> from \<open>-1\<close> give the index 2 and the fourth gives 0, not 2.
\<close>

theorem onDownKey_saturates_counterexample:
  "endOfListMethod wrap_config = Some ''jumpToBeginning'' \<and>
   role_items wrap_config (wrap_host (Element_ref [li ''a'', li ''b'', li ''c''])) =
     [li ''a'', li ''b'', li ''c''] \<and>
   highlightIndex (data wrap_config) = Some (- 1) \<and>
   highlightIndex
     (onDownKey wrap_config (wrap_host (Element_ref [li ''a'', li ''b'', li ''c'']))
       (onDownKey wrap_config (wrap_host (Element_ref [li ''a'', li ''b'', li ''c'']))
         (onDownKey wrap_config (wrap_host (Element_ref [li ''a'', li ''b'', li ''c'']))
           (data wrap_config)))) = Some 2 \<and>
   highlightIndex
     (onDownKey wrap_config (wrap_host (Element_ref [li ''a'', li ''b'', li ''c'']))
       (onDownKey wrap_config (wrap_host (Element_ref [li ''a'', li ''b'', li ''c'']))
         (onDownKey wrap_config (wrap_host (Element_ref [li ''a'', li ''b'', li ''c'']))
           (onDownKey wrap_config (wrap_host (Element_ref [li ''a'', li ''b'', li ''c'']))
             (data wrap_config))))) = Some 0"
  by (simp add: wrap_config_names wrap_host_list wrap_items wrap_onDownKey_index data_fields
      js_small)

subsection \<open>C3: \<^verbatim>\<open>onUpKey\<close> saturates at the first item\<close>

text \<open>
  C3, as amended. With methods for the open hook and the beginning-of-list hook that
  leave the highlight alone: from an index \<open>k\<close> with \<open>0 < k \<le> 2^53\<close>, \<open>m\<close> calls of
  \<^verbatim>\<open>onUpKey\<close> leave the index at \<open>max 0 (k - m)\<close>, so it goes down by one with each call
  while it is above 0 and then stays at 0. From an index \<open>k \<le> 0\<close>, so from the initial
  \<open>-1\<close> too, no call moves the index: it is not raised to 0. When the
  beginning-of-list hook is configured, a call invokes it exactly once if the index is
  at most 0 when the call is made, at \<open>-1\<close> as well as at 0, and not at all while the
  index is above 0.
\<close>

theorem onUpKey_saturates:
  assumes "highlightIndex vm = Some k"
    and "k \<le> 2 ^ 53"
    and "leaves_highlight (open_body cfg h)"
    and "leaves_highlight (beginningOfList_body cfg h)"
  shows "highlightIndex ((onUpKey cfg h ^^ m) vm) = Some (if 0 < k then max 0 (k - int m) else k) \<and>
         (truthy (beginningOfListMethod cfg) \<longrightarrow>
            calls Call_beginningOfList ((onUpKey cfg h ^^ Suc m) vm) =
              calls Call_beginningOfList ((onUpKey cfg h ^^ m) vm) +
              (if k - int m \<le> 0 then 1 else 0))"
  using onUpKey_iter_index [OF assms(3,4,2,1), of m]
  by (auto simp add: onUpKey_calls [OF assms(3,4)])

text \<open>
  C3, from index 2 on the list \<^verbatim>\<open>a\<close>, \<^verbatim>\<open>b\<close>, \<^verbatim>\<open>c\<close> with hook methods that leave the
  component as it is: one call gives 1, three calls give 0, and the third call, made
  at index 0, calls the hook once. From the initial index \<open>-1\<close> the index stays and the
  call made there calls the hook.
\<close>

theorem onUpKey_saturates_witness:
  "highlightIndex (snd (setHighlightIndex hooked_config abc_host 2 (data hooked_config))) = Some 2 \<and>
   (2::int) \<le> 2 ^ 53 \<and>
   leaves_highlight (open_body hooked_config abc_host) \<and>
   leaves_highlight (beginningOfList_body hooked_config abc_host) \<and>
   truthy (beginningOfListMethod hooked_config) \<and>
   highlightIndex ((onUpKey hooked_config abc_host ^^ 1)
     (snd (setHighlightIndex hooked_config abc_host 2 (data hooked_config)))) = Some 1 \<and>
   highlightIndex ((onUpKey hooked_config abc_host ^^ 3)
     (snd (setHighlightIndex hooked_config abc_host 2 (data hooked_config)))) = Some 0 \<and>
   calls Call_beginningOfList ((onUpKey hooked_config abc_host ^^ 3)
     (snd (setHighlightIndex hooked_config abc_host 2 (data hooked_config)))) =
   calls Call_beginningOfList ((onUpKey hooked_config abc_host ^^ 2)
     (snd (setHighlightIndex hooked_config abc_host 2 (data hooked_config)))) + 1 \<and>
   highlightIndex ((onUpKey hooked_config abc_host ^^ 2) (data hooked_config)) = Some (- 1) \<and>
   calls Call_beginningOfList ((onUpKey hooked_config abc_host ^^ 3) (data hooked_config)) =
   calls Call_beginningOfList ((onUpKey hooked_config abc_host ^^ 2) (data hooked_config)) + 1"
  using onUpKey_saturates [where vm = "snd (setHighlightIndex hooked_config abc_host 2 (data hooked_config))"
      and k = 2 and cfg = hooked_config and h = abc_host and m = 1]
    onUpKey_saturates [where vm = "snd (setHighlightIndex hooked_config abc_host 2 (data hooked_config))"
      and k = 2 and cfg = hooked_config and h = abc_host and m = 2]
    onUpKey_saturates [where vm = "snd (setHighlightIndex hooked_config abc_host 2 (data hooked_config))"
      and k = 2 and cfg = hooked_config and h = abc_host and m = 3]
    onUpKey_saturates [where vm = "data hooked_config" and k = "- 1" and cfg = hooked_config and h = abc_host and m = 2]
  by (simp add: example_hooks abc_host_leaves data_fields setHighlightIndex_index
      del: funpow.simps)

text \<open>
  C3 as stated fails in three ways. With \<^verbatim>\<open>beginningOfListMethod: 'jumpToEnd'\<close> on the
  list \<^verbatim>\<open>a\<close>, \<^verbatim>\<open>b\<close>, \<^verbatim>\<open>c\<close>, \<^verbatim>\<open>onUpKey\<close> at index 0 stores 2: the index does not stay at 0.
  From the index \<open>9007199254740994\<close> the call stores \<open>9007199254740992\<close>: the double
  nearest to the difference is two below, not one. And from the initial \<open>-1\<close> the index
  stays \<open>-1\<close>, below 0, while the hook is called although the index is not at 0.
\<close>

theorem onUpKey_saturates_counterexample:
  "beginningOfListMethod wrap_config = Some ''jumpToEnd'' \<and>
   highlightIndex
     (snd (setHighlightIndex wrap_config (wrap_host (Element_ref [li ''a'', li ''b'', li ''c''])) 0
            (data wrap_config))) = Some 0 \<and>
   highlightIndex
     (onUpKey wrap_config (wrap_host (Element_ref [li ''a'', li ''b'', li ''c'']))
       (snd (setHighlightIndex wrap_config (wrap_host (Element_ref [li ''a'', li ''b'', li ''c''])) 0
              (data wrap_config)))) = Some 2 \<and>
   highlightIndex
     (onUpKey hooked_config abc_host
       (snd (setHighlightIndex hooked_config abc_host 9007199254740994 (data hooked_config)))) =
     Some 9007199254740992 \<and>
   highlightIndex (onUpKey hooked_config abc_host (data hooked_config)) = Some (- 1) \<and>
   calls Call_beginningOfList (onUpKey hooked_config abc_host (data hooked_config)) = 1"
  by (simp add: wrap_config_names wrap_items wrap_onUpKey_index setHighlightIndex_index
      onUpKey_index [OF abc_host_leaves(1,2)] onUpKey_calls [OF abc_host_leaves(1,2)] example_hooks
      data_fields calls_data js_minus_def js_number_tie js_number_exact)

subsection \<open>C4: the stored id belongs to the stored index\<close>

text \<open>
  C4, as amended. Take a state reached from \<^verbatim>\<open>data ()\<close> by a sequence of the mixin's
  operations over an unchanged host, where \<^verbatim>\<open>setHighlightId\<close> is called with ASCII
  identifiers only (ASCII letters, digits, \<^verbatim>\<open>-\<close> and \<^verbatim>\<open>_\<close>, with a letter or \<^verbatim>\<open>_\<close> first,
  or \<^verbatim>\<open>-\<close> and then a letter or \<^verbatim>\<open>_\<close>) and where the methods configured as open hook and
  boundary hooks keep the property that follows. Whenever the stored index is the
  position of a role-matched item, the stored id is the id of that item. If moreover
  the list has an item (and at most \<open>2^53\<close>), \<^verbatim>\<open>setHighlightIndex\<close> is called with \<open>-1\<close>
  or a position of the list only, and the hook methods keep the index at \<open>-1\<close> or a
  position of the list, then the index is \<open>-1\<close> exactly when no item is highlighted.
\<close>

theorem run_id_matches_index:
  assumes "list_all ascii_identifier ops"
    and "list_all (preserves (id_matches_index cfg h)) (hook_bodies cfg h)"
  shows "id_matches_index cfg h (run cfg h ops) \<and>
         (role_items cfg h \<noteq> [] \<and> int (length (role_items cfg h)) \<le> 2 ^ 53 \<and>
          list_all (position_or_idle cfg h) ops \<and>
          list_all (preserves (index_in_list cfg h)) (hook_bodies cfg h) \<longrightarrow>
            (highlightIndex (run cfg h ops) = Some (- 1)) = (\<not> highlighted cfg h (run cfg h ops)))"
proof -
  have "id_matches_index cfg h (data cfg)"
    by (simp add: id_matches_index_def data_fields)
  with assms have first: "id_matches_index cfg h (run cfg h ops)"
    unfolding run_def by (simp add: id_matches_index_foldl)
  have second: "(highlightIndex (run cfg h ops) = Some (- 1)) = (\<not> highlighted cfg h (run cfg h ops))"
    if items: "role_items cfg h \<noteq> []"
      and size: "int (length (role_items cfg h)) \<le> 2 ^ 53"
      and positions: "list_all (position_or_idle cfg h) ops"
      and hooks: "list_all (preserves (index_in_list cfg h)) (hook_bodies cfg h)"
  proof -
    have "index_in_list cfg h (data cfg)"
      by (simp add: index_in_list_def data_fields)
    with assms(1) positions have "index_in_list cfg h (run cfg h ops)"
      unfolding run_def by (simp add: index_in_list_foldl [OF items size hooks])
    then show ?thesis
      by (rule index_in_list_highlighted)
  qed
  from first second show ?thesis
    by blast
qed

text \<open>
  C4, two instances. On the list \<^verbatim>\<open>a\<close>, \<^verbatim>\<open>b\<close>, \<^verbatim>\<open>c\<close>, with hook methods that leave the
  component as it is, two \<^verbatim>\<open>onDownKey\<close>, then \<^verbatim>\<open>setHighlightId('a')\<close>, then \<^verbatim>\<open>onDownKey\<close>
  give the index 1 with the id \<^verbatim>\<open>b\<close>, and an item is highlighted; in the initial state
  the index is \<open>-1\<close> and no item is highlighted. On the same list with
  \<^verbatim>\<open>endOfListMethod: 'jumpToBeginning'\<close> and \<^verbatim>\<open>beginningOfListMethod: 'jumpToEnd'\<close>, which
  keep both properties, four \<^verbatim>\<open>onDownKey\<close> give the index 0 with the id \<^verbatim>\<open>a\<close>.
\<close>

theorem run_id_matches_index_witness:
  "list_all ascii_identifier [OnDownKey, OnDownKey, SetHighlightId ''a'', OnDownKey] \<and>
   list_all (preserves (id_matches_index hooked_config abc_host)) (hook_bodies hooked_config abc_host) \<and>
   role_items hooked_config abc_host \<noteq> [] \<and>
   int (length (role_items hooked_config abc_host)) \<le> 2 ^ 53 \<and>
   list_all (position_or_idle hooked_config abc_host)
     [OnDownKey, OnDownKey, SetHighlightId ''a'', OnDownKey] \<and>
   list_all (preserves (index_in_list hooked_config abc_host)) (hook_bodies hooked_config abc_host) \<and>
   highlightIndex (run hooked_config abc_host [OnDownKey, OnDownKey, SetHighlightId ''a'', OnDownKey]) = Some 1 \<and>
   highlightId (run hooked_config abc_host [OnDownKey, OnDownKey, SetHighlightId ''a'', OnDownKey]) = Some ''b'' \<and>
   highlighted hooked_config abc_host
     (run hooked_config abc_host [OnDownKey, OnDownKey, SetHighlightId ''a'', OnDownKey]) \<and>
   list_all ascii_identifier [] \<and>
   list_all (position_or_idle hooked_config abc_host) [] \<and>
   highlightIndex (run hooked_config abc_host []) = Some (- 1) \<and>
   \<not> highlighted hooked_config abc_host (run hooked_config abc_host []) \<and>
   list_all ascii_identifier [OnDownKey, OnDownKey, OnDownKey, OnDownKey] \<and>
   list_all (preserves (id_matches_index wrap_config (wrap_host (Element_ref [li ''a'', li ''b'', li ''c'']))))
     (hook_bodies wrap_config (wrap_host (Element_ref [li ''a'', li ''b'', li ''c'']))) \<and>
   role_items wrap_config (wrap_host (Element_ref [li ''a'', li ''b'', li ''c''])) \<noteq> [] \<and>
   int (length (role_items wrap_config (wrap_host (Element_ref [li ''a'', li ''b'', li ''c''])))) \<le> 2 ^ 53 \<and>
   list_all (position_or_idle wrap_config (wrap_host (Element_ref [li ''a'', li ''b'', li ''c''])))
     [OnDownKey, OnDownKey, OnDownKey, OnDownKey] \<and>
   list_all (preserves (index_in_list wrap_config (wrap_host (Element_ref [li ''a'', li ''b'', li ''c'']))))
     (hook_bodies wrap_config (wrap_host (Element_ref [li ''a'', li ''b'', li ''c'']))) \<and>
   highlightIndex (run wrap_config (wrap_host (Element_ref [li ''a'', li ''b'', li ''c'']))
     [OnDownKey, OnDownKey, OnDownKey, OnDownKey]) = Some 0 \<and>
   highlightId (run wrap_config (wrap_host (Element_ref [li ''a'', li ''b'', li ''c'']))
     [OnDownKey, OnDownKey, OnDownKey, OnDownKey]) = Some ''a'' \<and>
   highlighted wrap_config (wrap_host (Element_ref [li ''a'', li ''b'', li ''c'']))
     (run wrap_config (wrap_host (Element_ref [li ''a'', li ''b'', li ''c'']))
       [OnDownKey, OnDownKey, OnDownKey, OnDownKey])"
proof -
  let ?ops = "[OnDownKey, OnDownKey, SetHighlightId ''a'', OnDownKey]"
  let ?down = "[OnDownKey, OnDownKey, OnDownKey, OnDownKey]"
  let ?wrap = "wrap_host (Element_ref [li ''a'', li ''b'', li ''c''])"
  have ok: "list_all ascii_identifier ?ops" "list_all (position_or_idle hooked_config abc_host) ?ops"
    by (simp_all add: example_selectors)
  have size: "role_items hooked_config abc_host \<noteq> []"
    "int (length (role_items hooked_config abc_host)) \<le> 2 ^ 53"
    by (simp_all add: example_items example_roles)
  have a: "fst (getItemIndex hooked_config abc_host ''a'' vm) = Inr (Some 0)" for vm
    by (simp add: getItemIndex_Id_selector [OF example_lists(1) example_selectors(1)]
        example_roles example_queries example_first_with_id indexOf_def)
  have index: "highlightIndex (run hooked_config abc_host ?ops) = Some 1"
    by (simp add: run_def onDownKey_index [OF abc_host_leaves(1,3)] setHighlightId_index a example_items
        example_roles js_small)
  from run_id_matches_index [OF ok(1) example_preserves, of hooked_config] index ok(2) size
  have first: "highlightId (run hooked_config abc_host ?ops) = Some ''b'' \<and>
      highlighted hooked_config abc_host (run hooked_config abc_host ?ops)"
    by (simp add: id_matches_index_def example_items example_roles example_preserves li_def)
  from run_id_matches_index [where ops = "[]" and cfg = hooked_config and h = abc_host] size
  have initial: "\<not> highlighted hooked_config abc_host (run hooked_config abc_host [])"
    by (simp add: run_simps data_fields example_preserves)
  have wrap_ok: "list_all ascii_identifier ?down" "list_all (position_or_idle wrap_config ?wrap) ?down"
    by simp_all
  have wrap_size: "role_items wrap_config ?wrap \<noteq> []"
    "int (length (role_items wrap_config ?wrap)) \<le> 2 ^ 53"
    by (simp_all add: wrap_host_list wrap_items)
  have wrap_index: "highlightIndex (run wrap_config ?wrap ?down) = Some 0"
    by (simp add: run_def wrap_onDownKey_index wrap_items data_fields js_small)
  have li: "elem_id (li i) = i" for i
    by (simp add: li_def)
  from run_id_matches_index [where ops = ?down and cfg = wrap_config and h = ?wrap]
    wrap_index wrap_ok wrap_size
  have wrap: "highlightId (run wrap_config ?wrap ?down) = Some ''a'' \<and>
      highlighted wrap_config ?wrap (run wrap_config ?wrap ?down)"
    by (simp add: id_matches_index_def wrap_host_list wrap_items wrap_host_preserves li)
  from ok size index first initial wrap_ok wrap_size wrap_index wrap show ?thesis
    by (simp add: run_simps data_fields example_preserves wrap_host_preserves)
qed

text \<open>
  C4 as stated fails. An index other than \<open>-1\<close> does not mean that an item is
  highlighted: \<^verbatim>\<open>onHomeKey\<close> on a list element without items stores the index 0, and
  \<^verbatim>\<open>setHighlightIndex(7)\<close> on the list of three items stores the index 7 with the id
  \<^verbatim>\<open>undefined\<close>; no item is at the stored index. And the stored id can differ from the
  id of the item at the index: after \<^verbatim>\<open>onDownKey\<close> on the list of three items,
  \<^verbatim>\<open>setHighlightId('1')\<close> stores the id \<^verbatim>\<open>1\<close> and is rejected before it writes the
  index, which stays 0, the position of the item \<^verbatim>\<open>a\<close>.
\<close>

theorem index_iff_highlighted_counterexample:
  "highlightIndex (run default_config empty_host [OnHomeKey]) = Some 0 \<and>
   \<not> highlighted default_config empty_host (run default_config empty_host [OnHomeKey]) \<and>
   highlightIndex (run default_config abc_host [SetHighlightIndex 7]) = Some 7 \<and>
   highlightId (run default_config abc_host [SetHighlightIndex 7]) = None \<and>
   \<not> highlighted default_config abc_host (run default_config abc_host [SetHighlightIndex 7]) \<and>
   highlightIndex (run default_config abc_host [OnDownKey, SetHighlightId ''1'']) = Some 0 \<and>
   elem_id (role_items default_config abc_host ! 0) = ''a'' \<and>
   highlightId (run default_config abc_host [OnDownKey, SetHighlightId ''1'']) = Some ''1''"
proof -
  have "fst (getItemIndex default_config abc_host ''1'' vm) = Inl SyntaxError" for vm
    by (simp add: getItemIndex_def example_lists querySelector_hash_def example_selectors)
  then show ?thesis
    by (simp add: run_def home_end_fields highlighted_def setHighlightIndex_index
        setHighlightIndex_id setHighlightId_index setHighlightId_id
        onDownKey_index [OF abc_host_leaves(1,3)] example_items example_roles item_at_def
        data_fields li_def js_small)
qed

subsection \<open>C5: \<^verbatim>\<open>setHighlightId\<close> finds the position\<close>

text \<open>
  C5, as amended. Let the id be an ASCII identifier (ASCII letters, digits, \<^verbatim>\<open>-\<close> and
  \<^verbatim>\<open>_\<close>, with a letter or \<^verbatim>\<open>_\<close> first, or \<^verbatim>\<open>-\<close> and then a letter or \<^verbatim>\<open>_\<close>). When the
  first descendant of the list element that carries the id is the role-matched item at
  position \<open>k\<close>, as it is when that item is the only descendant of the list element that
  carries the id, \<^verbatim>\<open>setHighlightId(id)\<close> stores the index \<open>k\<close> and the id, and the id is that
  of the item at position \<open>k\<close>.
\<close>

theorem setHighlightId_first_bearer:
  assumes "getListElement h = Some d"
    and "classify_hash i = Id_selector"
    and "k < length (querySelectorAll_role (listItemRole cfg) d)"
    and "first_with_id i d = Some (querySelectorAll_role (listItemRole cfg) d ! k) \<or>
         filter (\<lambda>n. elem_id (d ! n) = i) [0..<length d] =
           [querySelectorAll_role (listItemRole cfg) d ! k]"
  shows "highlightIndex (snd (setHighlightId cfg h i vm)) = Some (int k) \<and>
         highlightId (snd (setHighlightId cfg h i vm)) = Some i \<and>
         elem_id (role_items cfg h ! k) = i"
proof -
  have first: "first_with_id i d = Some (querySelectorAll_role (listItemRole cfg) d ! k)"
    using assms(4) by (auto simp add: first_with_id_only)
  have "indexOf (querySelectorAll_role (listItemRole cfg) d) (first_with_id i d) = int k"
    using assms(3) first indexOf_from_nth [OF distinct_querySelectorAll_role, of k "listItemRole cfg" d 0]
    by (simp add: indexOf_def)
  moreover have "elem_id (role_items cfg h ! k) = i"
    using first_with_id_Some [OF first] assms(1,3) by (simp add: role_items_def)
  ultimately show ?thesis
    by (simp add: setHighlightId_index setHighlightId_id getItemIndex_Id_selector [OF assms(1,2)])
qed

text \<open>
  C5, an instance: the id \<^verbatim>\<open>b\<close> on the list \<^verbatim>\<open>a\<close>, \<^verbatim>\<open>b\<close>, \<^verbatim>\<open>c\<close>, where the item at
  position 1 is the only descendant with that id, gives the index 1.
\<close>

theorem setHighlightId_first_bearer_witness:
  "getListElement abc_host = Some [li ''a'', li ''b'', li ''c''] \<and>
   classify_hash ''b'' = Id_selector \<and>
   1 < length (querySelectorAll_role (listItemRole default_config) [li ''a'', li ''b'', li ''c'']) \<and>
   first_with_id ''b'' [li ''a'', li ''b'', li ''c''] =
     Some (querySelectorAll_role (listItemRole default_config) [li ''a'', li ''b'', li ''c''] ! 1) \<and>
   filter (\<lambda>n. elem_id ([li ''a'', li ''b'', li ''c''] ! n) = ''b'')
     [0..<length [li ''a'', li ''b'', li ''c'']] = [1] \<and>
   highlightIndex (snd (setHighlightId default_config abc_host ''b'' (data default_config))) = Some 1 \<and>
   highlightId (snd (setHighlightId default_config abc_host ''b'' (data default_config))) = Some ''b''"
proof -
  have "filter (\<lambda>n. elem_id ([li ''a'', li ''b'', li ''c''] ! n) = ''b'')
      [0..<length [li ''a'', li ''b'', li ''c'']] = [1]"
    by (simp add: li_def upt_rec)
  with setHighlightId_first_bearer [where h = abc_host and d = "[li ''a'', li ''b'', li ''c'']"
      and i = "''b''" and k = 1 and cfg = default_config and vm = "data default_config"]
  show ?thesis
    by (simp add: example_lists example_selectors example_roles example_queries
        example_first_with_id)
qed

text \<open>
  C5 as stated fails. Where two items carry the id \<^verbatim>\<open>a\<close>, it is the id of the item at
  position 1, and \<^verbatim>\<open>setHighlightId\<close> stores the index 0. Where the item at position 0
  has the id \<^verbatim>\<open>1\<close>, the selector \<^verbatim>\<open>#1\<close> is a syntax error: the promise is rejected and
  the index stays \<open>-1\<close>.
\<close>

theorem setHighlightId_position_counterexample:
  "elem_id (role_items default_config twice_host ! 1) = ''a'' \<and>
   highlightIndex (snd (setHighlightId default_config twice_host ''a'' (data default_config))) = Some 0 \<and>
   elem_id (role_items default_config numeric_host ! 0) = ''1'' \<and>
   fst (setHighlightId default_config numeric_host ''1'' (data default_config)) = Rejected SyntaxError \<and>
   highlightIndex (snd (setHighlightId default_config numeric_host ''1'' (data default_config))) = Some (- 1)"
proof -
  have "getItemIndex default_config twice_host ''a'' vm = (Inr (Some 0), vm)" for vm
    by (simp add: getItemIndex_Id_selector [OF example_lists(3) example_selectors(1)]
        example_roles example_queries example_first_with_id indexOf_def)
  moreover have "getItemIndex default_config numeric_host ''1'' vm = (Inl SyntaxError, vm)" for vm
    by (simp add: getItemIndex_def example_lists querySelector_hash_def example_selectors)
  ultimately show ?thesis
    by (simp add: setHighlightId_eq await_afterHighlight_fields set_fields example_items
        example_roles li_def data_fields)
qed

subsection \<open>C6: \<^verbatim>\<open>setHighlightIndex\<close> stores the id of the position\<close>



subsection \<open>C7: the after-highlight hook\<close>



subsection \<open>C8: resolution when the list accessor returns nothing\<close>

text \<open>
  C8, as amended. When the list accessor returns nothing, \<^verbatim>\<open>_getItemIndex\<close> and
  \<^verbatim>\<open>_getItemId\<close> return \<^verbatim>\<open>undefined\<close>, without an exception and without touching the
  component, so without logging; \<^verbatim>\<open>_itemsLength\<close> returns 0 and logs the diagnostic.
\<close>

theorem absent_list_resolution:
  assumes "listRef h = No_ref"
  shows "getItemIndex cfg h i vm = (Inr None, vm) \<and>
         getItemId cfg h k vm = (None, vm) \<and>
         itemsLength cfg h vm = (0, emit Console_error vm)"
  using getListElement_No_ref [OF assms]
  by (simp add: getItemIndex_def getItemId_def itemsLength_def)

text \<open>
  C8, an instance: the host without a list.
\<close>

theorem absent_list_resolution_witness:
  "listRef no_list_host = No_ref \<and>
   getItemIndex default_config no_list_host ''a'' (data default_config) = (Inr None, data default_config) \<and>
   getItemId default_config no_list_host 0 (data default_config) = (None, data default_config) \<and>
   fst (itemsLength default_config no_list_host (data default_config)) = 0 \<and>
   trace (snd (itemsLength default_config no_list_host (data default_config))) = [Console_error]"
  using absent_list_resolution [where h = no_list_host and cfg = default_config and i = "''a''"
      and vm = "data default_config" and k = 0]
  by (simp add: no_list_host_def host_of_def emit_fields data_fields)

text \<open>
  C8 as stated fails: on the host without a list \<^verbatim>\<open>_getItemIndex\<close> and \<^verbatim>\<open>_getItemId\<close>
  leave the trace empty; they log nothing.
\<close>

theorem absent_list_logging_counterexample:
  "trace (snd (getItemIndex default_config no_list_host ''a'' (data default_config))) = [] \<and>
   trace (snd (getItemId default_config no_list_host 0 (data default_config))) = []"
  by (simp add: getItemIndex_snd getItemId_eq data_fields)

subsection \<open>C9: \<^verbatim>\<open>setHighlightIndex\<close> does not check the range\<close>

text \<open>
  C9. \<^verbatim>\<open>setHighlightIndex(i)\<close> stores the index \<open>i\<close> whatever the integer \<open>i\<close> is, and the
  stored id is \<^verbatim>\<open>undefined\<close> when \<open>i\<close> is no position of the list.
\<close>

theorem setHighlightIndex_unclamped:
  "highlightIndex (snd (setHighlightIndex cfg h i vm)) = Some i \<and>
   (i < 0 \<or> int (length (role_items cfg h)) \<le> i \<longrightarrow>
      highlightId (snd (setHighlightIndex cfg h i vm)) = None)"
  by (auto simp add: setHighlightIndex_index setHighlightIndex_id item_at_def)

text \<open>
  C9, two instances on the list of three items: 7 and \<open>-3\<close>.
\<close>

theorem setHighlightIndex_unclamped_witness:
  "int (length (role_items default_config abc_host)) \<le> 7 \<and>
   highlightIndex (snd (setHighlightIndex default_config abc_host 7 (data default_config))) = Some 7 \<and>
   highlightId (snd (setHighlightIndex default_config abc_host 7 (data default_config))) = None \<and>
   highlightIndex (snd (setHighlightIndex default_config abc_host (- 3) (data default_config))) = Some (- 3) \<and>
   highlightId (snd (setHighlightIndex default_config abc_host (- 3) (data default_config))) = None"
  using setHighlightIndex_unclamped [where cfg = default_config and h = abc_host and i = 7 and vm = "data default_config"]
    setHighlightIndex_unclamped [where cfg = default_config and h = abc_host and i = "- 3" and vm = "data default_config"]
  by (simp add: example_items example_roles)

subsection \<open>C10: \<^verbatim>\<open>onDownKey\<close> on a list element without items\<close>

text \<open>
  C10, as amended. When the list element exists and has no role-matched item, and the
  methods configured as open hook and end-of-list hook leave the highlight alone, a
  call of \<^verbatim>\<open>onDownKey\<close> made with an index that is at least \<open>-1\<close> (or \<^verbatim>\<open>undefined\<close>)
  leaves the stored index and id as they are and, when the end-of-list hook is
  configured, calls it once.
\<close>

theorem onDownKey_no_items:
  assumes "getListElement h = Some d"
    and "querySelectorAll_role (listItemRole cfg) d = []"
    and "\<forall>i. highlightIndex vm = Some i \<longrightarrow> - 1 \<le> i"
    and "leaves_highlight (open_body cfg h)"
    and "leaves_highlight (endOfList_body cfg h)"
  shows "highlightIndex (onDownKey cfg h vm) = highlightIndex vm \<and>
         highlightId (onDownKey cfg h vm) = highlightId vm \<and>
         (truthy (endOfListMethod cfg) \<longrightarrow>
            calls Call_endOfList (onDownKey cfg h vm) = calls Call_endOfList vm + 1)"
proof -
  have "role_items cfg h = []"
    using assms(1,2) by (simp add: role_items_def)
  with assms(3) show ?thesis
    by (auto simp add: onDownKey_index [OF assms(4,5)] onDownKey_id [OF assms(4,5)]
        onDownKey_calls [OF assms(4,5)] js_small split: option.split)
qed

text \<open>
  C10, an instance: from \<^verbatim>\<open>data ()\<close>, where no item has ever been highlighted, with
  hook methods that leave the component as it is, the call leaves the index at \<open>-1\<close>
  and calls the end-of-list hook.
\<close>

theorem onDownKey_no_items_witness:
  "getListElement empty_host = Some [] \<and>
   querySelectorAll_role (listItemRole hooked_config) [] = [] \<and>
   leaves_highlight (open_body hooked_config empty_host) \<and>
   leaves_highlight (endOfList_body hooked_config empty_host) \<and>
   truthy (endOfListMethod hooked_config) \<and>
   highlightIndex (data hooked_config) = Some (- 1) \<and>
   highlightIndex (onDownKey hooked_config empty_host (data hooked_config)) = Some (- 1) \<and>
   highlightId (onDownKey hooked_config empty_host (data hooked_config)) = Some [] \<and>
   calls Call_endOfList (onDownKey hooked_config empty_host (data hooked_config)) = 1"
  using onDownKey_no_items [where h = empty_host and d = "[]" and cfg = hooked_config
      and vm = "data hooked_config"]
  by (simp add: example_lists example_roles example_queries example_hooks empty_host_leaves
      data_fields calls_data)

text \<open>
  C10 as stated fails for an index below \<open>-1\<close>, which \<^verbatim>\<open>setHighlightIndex\<close> stores as it
  is given: from \<open>-5\<close> on a list element without items, \<^verbatim>\<open>onDownKey\<close> moves the index
  to \<open>-4\<close> and does not call the hook.
\<close>

theorem onDownKey_no_items_counterexample:
  "getListElement empty_host = Some [] \<and>
   role_items hooked_config empty_host = [] \<and>
   highlightIndex (snd (setHighlightIndex hooked_config empty_host (- 5) (data hooked_config))) = Some (- 5) \<and>
   highlightIndex (onDownKey hooked_config empty_host
     (snd (setHighlightIndex hooked_config empty_host (- 5) (data hooked_config)))) = Some (- 4) \<and>
   calls Call_endOfList (onDownKey hooked_config empty_host
     (snd (setHighlightIndex hooked_config empty_host (- 5) (data hooked_config)))) = 0"
  by (simp add: example_lists example_items example_roles
      onDownKey_index [OF empty_host_leaves(1,3)] onDownKey_calls [OF empty_host_leaves(1,3)]
      setHighlightIndex_index setHighlightIndex_calls
      calls_data js_plus_def js_minus_def js_number_exact)

end
